theory Spec2Isabelle
  imports Main "HOL-Library.Word" "HOL-Library.Sublist" "HOL-Library.Code_Target_Nat"
begin

unbundle bit_operations_syntax

section \<open>fdtdump.c: data model\<close>

text \<open>
  The program reads a file into a buffer and walks it through raw pointers. Pointers and
  \<^verbatim>\<open>uintptr_t\<close> are 64-bit words (LP64), \<^verbatim>\<open>uint32_t\<close> is a 32-bit word, and the
  buffer is the list of its bytes together with the address of its first byte. A read
  outside the buffer is undefined behaviour in C; the model returns the error
  \<open>OutOfBounds\<close> there. Loops that the source does not bound carry a fuel argument and
  return \<open>OutOfFuel\<close> when it is used up. The C \<^verbatim>\<open>int\<close> counters (the depth, the index
  into the reservation map, the chunk size) are unbounded numbers: they stay far from
  the limits of \<^verbatim>\<open>int\<close> on every buffer that fits in memory. The length of a property
  is a 32-bit word, compared as a signed number as the source does. A load through a
  pointer that is not a multiple of the size of its type is performed byte by byte, as
  on the byte-addressed machines the program runs on.
\<close>

type_synonym byte = "8 word"
type_synonym addr = "64 word"
type_synonym u32 = "32 word"
type_synonym u64 = "64 word"

text \<open>
  Modelled from the spec: \<^verbatim>\<open>die\<close> (util.c, not among the sources) reports a fatal
  condition and "the process exits". A call is the error \<open>Die out msg\<close>, with the
  standard output written so far and the formatted message of the call.
\<close>

datatype error = OutOfBounds | OutOfFuel | Die string string

record mem =
  base :: addr
  bytes :: "byte list"

fun bind_res :: "error + 'a \<Rightarrow> ('a \<Rightarrow> error + 'b) \<Rightarrow> error + 'b" where
  "bind_res (Inl e) f = Inl e"
| "bind_res (Inr x) f = f x"

text \<open>\<open>rd_bytes M a n\<close>: the \<open>n\<close> bytes at address \<open>a\<close>, when all of them lie in the buffer.\<close>

definition rd_bytes :: "mem \<Rightarrow> addr \<Rightarrow> nat \<Rightarrow> error + byte list" where
  "rd_bytes M a n =
     (let i = unat (a - base M)
      in if i + n \<le> length (bytes M) then Inr (take n (drop i (bytes M)))
         else Inl OutOfBounds)"

text \<open>
  Modelled from the spec: the Big-Endian Field Reader (\<^verbatim>\<open>fdt32_to_cpu\<close>,
  \<^verbatim>\<open>fdt64_to_cpu\<close> of libfdt_env.h, which is not among the sources) "converts
  fixed-width integers stored in network byte order to host representation". The load
  and the conversion together are the big-endian value of the bytes in memory.
\<close>

definition be_val :: "byte list \<Rightarrow> 'a::len word" where
  "be_val bs = foldl (\<lambda>acc b. push_bit 8 acc OR ucast b) 0 bs"

definition be32 :: "mem \<Rightarrow> addr \<Rightarrow> error + u32" where
  "be32 M a = bind_res (rd_bytes M a 4) (\<lambda>bs. Inr (be_val bs))"

definition be64 :: "mem \<Rightarrow> addr \<Rightarrow> error + u64" where
  "be64 M a = bind_res (rd_bytes M a 8) (\<lambda>bs. Inr (be_val bs))"

text \<open>
  The C string at an address (what \<^verbatim>\<open>strlen\<close> measures and \<^verbatim>\<open>%s\<close> prints): the
  bytes before the first NUL; without a NUL before the end of the buffer the scan leaves
  the buffer.
\<close>

definition cstr :: "mem \<Rightarrow> addr \<Rightarrow> error + byte list" where
  "cstr M a =
     (let i = unat (a - base M);
          s = takeWhile (\<lambda>b. b \<noteq> 0) (drop i (bytes M))
      in if i + length s < length (bytes M) then Inr s else Inl OutOfBounds)"

definition chars :: "byte list \<Rightarrow> string" where
  "chars bs = map (\<lambda>b. char_of (unat b)) bs"

subsection \<open>Constants and layouts of the headers that are not among the sources\<close>

text \<open>
  fdt.h and libfdt.h are included by fdtdump.c but are not part of the sources. The
  magic, the five tags and the offsets of the fields of \<^verbatim>\<open>struct fdt_header\<close> are
  therefore parameters of the model, collected in one record. \<open>fdt_h\<close> below gives the
  values of the flattened device tree format; it is used for concrete runs only.
\<close>

record fdt_decl =
  FDT_MAGIC :: u32
  FDT_BEGIN_NODE :: u32
  FDT_END_NODE :: u32
  FDT_PROP :: u32
  FDT_NOP :: u32
  FDT_END :: u32
  o_magic :: addr
  o_totalsize :: addr
  o_off_dt_struct :: addr
  o_off_dt_strings :: addr
  o_off_mem_rsvmap :: addr
  o_version :: addr
  o_last_comp_version :: addr
  o_boot_cpuid_phys :: addr
  o_size_dt_strings :: addr
  o_size_dt_struct :: addr

definition fdt_h :: fdt_decl where
  "fdt_h = \<lparr> FDT_MAGIC = 0xd00dfeed, FDT_BEGIN_NODE = 1, FDT_END_NODE = 2, FDT_PROP = 3,
             FDT_NOP = 4, FDT_END = 9,
             o_magic = 0, o_totalsize = 4, o_off_dt_struct = 8, o_off_dt_strings = 12,
             o_off_mem_rsvmap = 16, o_version = 20, o_last_comp_version = 24,
             o_boot_cpuid_phys = 28, o_size_dt_strings = 32, o_size_dt_struct = 36 \<rparr>"

text \<open>\<^verbatim>\<open>fdt32_to_cpu(bph->field)\<close>, and libfdt.h's \<^verbatim>\<open>fdt_magic(p)\<close>, \<^verbatim>\<open>fdt_version(p)\<close>, ...\<close>

definition hdr :: "mem \<Rightarrow> addr \<Rightarrow> addr \<Rightarrow> error + u32" where
  "hdr M blob off = be32 M (blob + off)"

subsection \<open>The macros of fdtdump.c\<close>

text \<open>\<^verbatim>\<open>#define ALIGN(x, a) (((x) + ((a) - 1)) & ~((a) - 1))\<close> on \<^verbatim>\<open>unsigned long\<close>.\<close>

definition ALIGN :: "addr \<Rightarrow> addr \<Rightarrow> addr" where
  "ALIGN x a = (x + (a - 1)) AND NOT (a - 1)"

definition PALIGN :: "addr \<Rightarrow> addr \<Rightarrow> addr" where
  "PALIGN p a = ALIGN p a"

text \<open>
  \<^verbatim>\<open>tagname\<close>: the table has designated initialisers, so of two equal indices the later
  one would win; the chain tests the later entries first.
\<close>

definition tagname :: "fdt_decl \<Rightarrow> u32 \<Rightarrow> string" where
  "tagname K tag =
     (if tag = FDT_END K then ''FDT_END''
      else if tag = FDT_NOP K then ''FDT_NOP''
      else if tag = FDT_PROP K then ''FDT_PROP''
      else if tag = FDT_END_NODE K then ''FDT_END_NODE''
      else if tag = FDT_BEGIN_NODE K then ''FDT_BEGIN_NODE''
      else ''FDT_???'')"

subsection \<open>printf conversions\<close>

definition nl :: string where
  "nl = [CHR 0x0A]"

definition tab :: string where
  "tab = [CHR 0x09]"

definition hexdigit :: "nat \<Rightarrow> char" where
  "hexdigit d = ''0123456789abcdef'' ! d"

fun hex :: "nat \<Rightarrow> string" where
  "hex n = (if n < 16 then [hexdigit n] else hex (n div 16) @ [hexdigit (n mod 16)])"

declare hex.simps [simp del]

fun dec :: "nat \<Rightarrow> string" where
  "dec n = (if n < 10 then [hexdigit n] else dec (n div 10) @ [hexdigit (n mod 10)])"

declare dec.simps [simp del]

text \<open>\<^verbatim>\<open>%x\<close>, \<^verbatim>\<open>%04zx\<close> and \<^verbatim>\<open>%08x\<close> (zero padding to a minimum width), \<^verbatim>\<open>%#llx\<close> and
  \<^verbatim>\<open>%#zx\<close> (prefix 0x unless the value is zero), \<^verbatim>\<open>%d\<close> given a 32-bit value.\<close>

definition fmt_x :: "nat \<Rightarrow> string" where
  "fmt_x n = hex n"

definition fmt_0x :: "nat \<Rightarrow> nat \<Rightarrow> string" where
  "fmt_0x w n = replicate (w - length (hex n)) CHR ''0'' @ hex n"

definition fmt_alt_x :: "nat \<Rightarrow> string" where
  "fmt_alt_x n = (if n = 0 then ''0'' else ''0x'' @ hex n)"

definition fmt_d :: "u32 \<Rightarrow> string" where
  "fmt_d v = (if sint v < 0 then ''-'' @ dec (nat (- sint v)) else dec (nat (sint v)))"

text \<open>\<^verbatim>\<open>printf("%*s", w, "")\<close>: \<open>|w|\<close> spaces (a negative width is a left-justified
  field of width \<open>-w\<close>).\<close>

definition pad :: "int \<Rightarrow> string" where
  "pad w = replicate (nat \<bar>w\<bar>) CHR '' ''"

text \<open>\<^verbatim>\<open>#define dumpf(fmt, args...) do { if (debug) printf("// " fmt, ## args); } while (0)\<close>\<close>

definition dumpf :: "bool \<Rightarrow> string \<Rightarrow> string" where
  "dumpf debug s = (if debug then ''// '' @ s else [])"

text \<open>The local variable \<^verbatim>\<open>shift\<close> of \<^verbatim>\<open>dump_blob\<close> and \<^verbatim>\<open>dump_live_internal\<close>.\<close>

definition shift :: int where
  "shift = 4"

subsection \<open>The renderer of property values\<close>

text \<open>
  Modelled from the spec: the Property-Value Renderer (\<^verbatim>\<open>utilfdt_print_data(data, len)\<close>
  of util.c, not among the sources) "given a byte span, returns a textual
  representation". It is the parameter \<open>render\<close> of the model, applied to the length
  it is called with (a C \<^verbatim>\<open>int\<close>) and to the bytes of the span.
\<close>

type_synonym renderer = "int \<Rightarrow> byte list \<Rightarrow> string"

section \<open>dump_live\<close>

text \<open>
  The live tree is read through \<^verbatim>\<open>opendir\<close>, \<^verbatim>\<open>readdir\<close>, \<^verbatim>\<open>stat\<close>, \<^verbatim>\<open>open\<close> and
  \<^verbatim>\<open>read\<close>. The model takes the tree these calls show: a directory is the list of its
  entries in the order \<^verbatim>\<open>readdir\<close> returns them (\<open>NoDir\<close> is a directory that
  \<^verbatim>\<open>opendir\<close> cannot open), a regular file has the size \<^verbatim>\<open>stat\<close> reports (\<open>None\<close>
  when \<^verbatim>\<open>stat\<close> fails), whether \<^verbatim>\<open>open\<close> succeeds, and the bytes \<^verbatim>\<open>read\<close> delivers
  (\<open>None\<close> when \<^verbatim>\<open>read\<close> fails with an error other than EAGAIN and EINTR, which the
  inner \<^verbatim>\<open>do ... while\<close> retries). A \<^verbatim>\<open>read\<close> returns as many of the bytes asked for
  as the file still has, and 0 at its end. \<open>Other\<close> stands for every other
  \<^verbatim>\<open>d_type\<close>. Entry names are at most \<^verbatim>\<open>NAME_MAX\<close> bytes, so \<^verbatim>\<open>snprintf\<close> into
  \<^verbatim>\<open>new_path\<close> does not truncate.
\<close>

datatype rfile = RFile (st_size: "nat option") (can_open: bool) (data: "byte list option")

datatype fnode = Reg rfile | Dir "(string \<times> fnode) list" | NoDir | Other

definition buf_alloc :: nat where
  "buf_alloc = 4 * 1024"

text \<open>Lines 192-200: the loop that fills \<^verbatim>\<open>buf\<close> with \<^verbatim>\<open>chunk\<close> bytes.\<close>

fun read_loop ::
  "nat \<Rightarrow> string \<Rightarrow> string \<Rightarrow> byte list option \<Rightarrow> nat \<Rightarrow> nat \<Rightarrow> byte list \<Rightarrow> error + byte list" where
  "read_loop 0 new_path out d pos left buf = (if 0 < left then Inl OutOfFuel else Inr buf)"
| "read_loop (Suc fuel) new_path out d pos left buf =
     (if 0 < left then
        (case d of
           None \<Rightarrow> Inl (Die out (''Read failed on: '' @ new_path @ nl))
         | Some bs \<Rightarrow>
             let ret = min left (length bs - pos)
             in read_loop fuel new_path out d (pos + ret) (left - ret)
                  (buf @ take ret (drop pos bs)))
      else Inr buf)"

text \<open>Lines 178-206: one regular file.\<close>

definition dump_file ::
  "nat \<Rightarrow> renderer \<Rightarrow> string \<Rightarrow> int \<Rightarrow> string \<Rightarrow> rfile \<Rightarrow> string \<Rightarrow> error + string" where
  "dump_file fuel render path depth name f out =
     (let new_path = path @ ''/'' @ name;
          out1 = out @ pad (depth * shift) @ name
      in case st_size f of
           None \<Rightarrow> Inl (Die out1 (''could not open: '' @ new_path @ nl))
         | Some sz \<Rightarrow>
             if \<not> can_open f then Inl (Die out1 (''Could not open: '' @ new_path @ nl))
             else
               let chunk = (if buf_alloc < sz then buf_alloc else sz) in
               bind_res (read_loop fuel new_path out1 (data f) 0 chunk []) (\<lambda>buf.
                 Inr (out1 @ (if chunk < sz then '' (trunc)'' else [])
                        @ render (int chunk) (take chunk buf) @ '';'' @ nl)))"

fun dump_props ::
  "nat \<Rightarrow> renderer \<Rightarrow> string \<Rightarrow> int \<Rightarrow> (string \<times> fnode) list \<Rightarrow> string
     \<Rightarrow> error + string" where
  "dump_props fuel render path depth [] out = Inr out"
| "dump_props fuel render path depth ((name, Reg f) # es) out =
     bind_res (dump_file fuel render path depth name f out) (\<lambda>out'.
       dump_props fuel render path depth es out')"
| "dump_props fuel render path depth ((name, n) # es) out =
     dump_props fuel render path depth es out"

fun is_dir :: "fnode \<Rightarrow> bool" where
  "is_dir (Dir es) = True"
| "is_dir NoDir = True"
| "is_dir n = False"

fun dump_live_internal ::
  "nat \<Rightarrow> renderer \<Rightarrow> string \<Rightarrow> bool \<Rightarrow> int \<Rightarrow> fnode \<Rightarrow> string \<Rightarrow> error + string"
and dump_subdirs ::
  "nat \<Rightarrow> renderer \<Rightarrow> string \<Rightarrow> bool \<Rightarrow> int \<Rightarrow> (string \<times> fnode) list \<Rightarrow> string
     \<Rightarrow> error + string" where
  "dump_live_internal fuel render path debug depth (Dir es) out =
     bind_res (dump_props fuel render path depth es out) (\<lambda>out1.
       dump_subdirs fuel render path debug depth es out1)"
| "dump_live_internal fuel render path debug depth n out =
     Inl (Die out (''Could not open '' @ path @ '' directory'' @ nl))"
| "dump_subdirs fuel render path debug depth [] out = Inr out"
| "dump_subdirs fuel render path debug depth ((name, n) # es) out =
     (if is_dir n \<and> name \<noteq> ''.'' \<and> name \<noteq> ''..'' then
        bind_res (dump_live_internal fuel render (path @ ''/'' @ name) debug (depth + 1) n
                    (out @ pad (depth * shift) @ name @ '' {'' @ nl)) (\<lambda>out'.
          dump_subdirs fuel render path debug depth es
            (out' @ pad (depth * shift) @ ''};'' @ nl))
      else dump_subdirs fuel render path debug depth es out)"

text \<open>Lines 232-236: trailing slashes are removed, the first character stays.\<close>

function strip_trailing :: "string \<Rightarrow> string" where
  "strip_trailing s =
     (if 1 < length s \<and> last s = CHR ''/'' then strip_trailing (butlast s) else s)"
  by pat_completeness auto
termination
  by (relation "measure length") auto

declare strip_trailing.simps [simp del]

text \<open>With an empty path the source reads \<^verbatim>\<open>fixed_path[-1]\<close>.\<close>

definition dump_live ::
  "nat \<Rightarrow> renderer \<Rightarrow> string \<Rightarrow> bool \<Rightarrow> fnode \<Rightarrow> error + string" where
  "dump_live fuel render path debug root =
     (if path = [] then Inl OutOfBounds
      else
        let fixed_path = strip_trailing path in
        bind_res (dump_live_internal fuel render fixed_path debug 1 root
                    (''/* dump of live tree at '' @ fixed_path @ '' */'' @ nl @ ''/ {'' @ nl))
          (\<lambda>out'. Inr (out' @ ''};'' @ nl)))"

section \<open>The scan for an embedded blob (main, lines 297-329)\<close>

text \<open>
  \<^verbatim>\<open>memchr\<close> of the C library: the first of the \<open>n\<close> bytes at \<open>s\<close> that equals \<open>c\<close>; the
  bytes are read in order and the search stops at the first match, so only a search
  that finds nothing has to have all \<open>n\<close> bytes in the buffer.
\<close>

definition memchr :: "mem \<Rightarrow> addr \<Rightarrow> byte \<Rightarrow> nat \<Rightarrow> error + addr option" where
  "memchr M s c n =
     (let i = unat (s - base M);
          window = take n (drop i (bytes M));
          j = length (takeWhile (\<lambda>b. b \<noteq> c) window)
      in if j < length window then Inr (Some (s + of_nat j))
         else if i + n \<le> length (bytes M) then Inr None
         else Inl OutOfBounds)"

text \<open>
  Modelled from the spec: the probe looks for "the first byte of the format's 4-byte
  magic constant", the magic being stored in network byte order
  (\<^verbatim>\<open>fdt_set_magic(smagic, FDT_MAGIC)\<close> is not among the sources).
\<close>

definition smagic0 :: "fdt_decl \<Rightarrow> byte" where
  "smagic0 K = ucast (drop_bit 24 (FDT_MAGIC K))"

text \<open>Lines 311-317: the checks on the header of a candidate, left to right, each
  evaluated only when the ones before it hold.\<close>

definition plausible :: "fdt_decl \<Rightarrow> mem \<Rightarrow> addr \<Rightarrow> addr \<Rightarrow> error + bool" where
  "plausible K M endp q =
     (let this_len = sint (endp - q) in
      bind_res (hdr M q (o_version K)) (\<lambda>version.
        if \<not> version \<le> 17 then Inr False
        else bind_res (hdr M q (o_last_comp_version K)) (\<lambda>last_comp.
          if \<not> last_comp < 17 then Inr False
          else bind_res (hdr M q (o_totalsize K)) (\<lambda>totalsize.
            if \<not> uint totalsize < this_len then Inr False
            else bind_res (hdr M q (o_off_dt_struct K)) (\<lambda>off_dt.
              if \<not> uint off_dt < this_len then Inr False
              else bind_res (hdr M q (o_off_dt_strings K)) (\<lambda>off_str.
                Inr (uint off_str < this_len)))))))"

text \<open>Lines 305-324. The result is the pointer the loop ends with (\<open>None\<close> for NULL) and
  the standard output.\<close>

fun scan_loop ::
  "nat \<Rightarrow> fdt_decl \<Rightarrow> mem \<Rightarrow> string \<Rightarrow> bool \<Rightarrow> addr \<Rightarrow> addr \<Rightarrow> addr \<Rightarrow> string
     \<Rightarrow> error + (addr option \<times> string)" where
  "scan_loop 0 K M file debug buf endp q out = Inl OutOfFuel"
| "scan_loop (Suc fuel) K M file debug buf endp q out =
     bind_res (memchr M q (smagic0 K) (unat (endp - q - 4))) (\<lambda>r.
       case r of
         None \<Rightarrow> Inr (None, out)
       | Some q' \<Rightarrow>
           bind_res (hdr M q' (o_magic K)) (\<lambda>magic.
             if magic = FDT_MAGIC K then
               bind_res (plausible K M endp q') (\<lambda>ok.
                 if ok then Inr (Some q', out)
                 else scan_loop fuel K M file debug buf endp (q' + 1)
                        (out @ (if debug
                                then file @ '': skipping fdt magic at offset ''
                                       @ fmt_alt_x (unat (q' - buf)) @ nl
                                else [])))
             else scan_loop fuel K M file debug buf endp (q' + 1) out))"

section \<open>dump_blob\<close>

text \<open>
  The span that \<^verbatim>\<open>utilfdt_print_data(t, sz)\<close> is handed in line 149: the \<open>sz\<close> bytes at
  the value pointer, which the renderer reads and which must lie in the buffer.
  \<open>sz\<close> is a C \<^verbatim>\<open>int\<close>: with a negative length there is no span, \<^verbatim>\<open>dump_blob\<close> itself
  reads nothing at \<open>t\<close>, and the walk goes on.
\<close>

definition span :: "mem \<Rightarrow> addr \<Rightarrow> u32 \<Rightarrow> error + byte list" where
  "span M t sz = (if sz <s 0 then Inr [] else rd_bytes M t (unat sz))"

subsection \<open>The reservation map (lines 93-101)\<close>

text \<open>
  Modelled from the spec: a Reservation Entry (\<^verbatim>\<open>struct fdt_reserve_entry\<close> of fdt.h) is
  "an (address: 64-bit, size: 64-bit) pair", 16 bytes, the address first.
  The index \<open>i\<close> is a C \<^verbatim>\<open>int\<close>; it is a natural number here.
\<close>

definition memreserve_line :: "u64 \<Rightarrow> u64 \<Rightarrow> string" where
  "memreserve_line a s =
     ''/memreserve/ '' @ fmt_alt_x (unat a) @ '' '' @ fmt_alt_x (unat s) @ '';'' @ nl"

fun rsvmap_loop :: "nat \<Rightarrow> mem \<Rightarrow> addr \<Rightarrow> nat \<Rightarrow> string \<Rightarrow> error + string" where
  "rsvmap_loop 0 M p_rsvmap i out = Inl OutOfFuel"
| "rsvmap_loop (Suc fuel) M p_rsvmap i out =
     bind_res (be64 M (p_rsvmap + 16 * of_nat i)) (\<lambda>addr.
     bind_res (be64 M (p_rsvmap + 16 * of_nat i + 8)) (\<lambda>size.
       if addr = 0 \<and> size = 0 then Inr out
       else rsvmap_loop fuel M p_rsvmap (Suc i) (out @ memreserve_line addr size)))"

subsection \<open>The structure block (lines 103-151)\<close>

record wstate =
  p :: addr
  depth :: int
  out :: string
  err :: string

text \<open>Lines 140-142: where the value of a property starts, given the cursor after the
  length and name-offset cells.\<close>

definition value_start :: "u32 \<Rightarrow> u32 \<Rightarrow> addr \<Rightarrow> addr" where
  "value_start version sz q = (if version < 16 \<and> 8 \<le>s sz then PALIGN q 8 else q)"

text \<open>
  One round of the \<^verbatim>\<open>while\<close> loop: the tag is read and the cursor moves past it. The
  result is \<open>(False, st)\<close> when the loop is left (the tag is \<^verbatim>\<open>FDT_END\<close>, or the
  \<^verbatim>\<open>break\<close> of the unknown tag) and \<open>(True, st)\<close> when it goes round again.
\<close>

definition walk_step ::
  "fdt_decl \<Rightarrow> renderer \<Rightarrow> mem \<Rightarrow> addr \<Rightarrow> addr \<Rightarrow> u32 \<Rightarrow> bool \<Rightarrow> wstate
     \<Rightarrow> error + (bool \<times> wstate)" where
  "walk_step K render M blob p_strings version debug st =
     bind_res (be32 M (p st)) (\<lambda>tag.
       let p1 = p st + 4 in
       if tag = FDT_END K then Inr (False, st\<lparr>p := p1\<rparr>)
       else
         let out1 = out st @ dumpf debug (fmt_0x 4 (unat (p1 - blob - 4)) @ '': tag: 0x''
                       @ fmt_0x 8 (unat tag) @ '' ('' @ tagname K tag @ '')'' @ nl) in
         if tag = FDT_BEGIN_NODE K then
           bind_res (cstr M p1) (\<lambda>s.
             Inr (True, st\<lparr>p := PALIGN (p1 + of_nat (length s) + 1) 4,
                            depth := depth st + 1,
                            out := out1 @ pad (depth st * shift)
                                     @ (if s = [] then ''/'' else chars s) @ '' {'' @ nl\<rparr>))
         else if tag = FDT_END_NODE K then
           Inr (True, st\<lparr>p := p1, depth := depth st - 1,
                          out := out1 @ pad ((depth st - 1) * shift) @ ''};'' @ nl\<rparr>)
         else if tag = FDT_NOP K then
           Inr (True, st\<lparr>p := p1, out := out1 @ pad (depth st * shift) @ ''// [NOP]'' @ nl\<rparr>)
         else if tag \<noteq> FDT_PROP K then
           Inr (False, st\<lparr>p := p1, out := out1,
                           err := err st @ pad (depth st * shift) @ '' ** Unknown tag 0x''
                                    @ fmt_0x 8 (unat tag) @ nl\<rparr>)
         else
           bind_res (be32 M p1) (\<lambda>sz.
           bind_res (be32 M (p1 + 4)) (\<lambda>nameoff.
             let s = p_strings + ucast nameoff;
                 t = value_start version sz (p1 + 8)
             in
             bind_res (cstr M s) (\<lambda>name.
             bind_res (span M t sz) (\<lambda>val.
               Inr (True, st\<lparr>p := PALIGN (t + scast sz) 4,
                              out := out1
                                @ dumpf debug (fmt_0x 4 (unat (s - blob)) @ '': string: ''
                                     @ chars name @ nl)
                                @ dumpf debug (fmt_0x 4 (unat (t - blob)) @ '': value'' @ nl)
                                @ pad (depth st * shift) @ chars name
                                @ render (sint sz) val @ '';'' @ nl\<rparr>))))))"

fun walk ::
  "nat \<Rightarrow> fdt_decl \<Rightarrow> renderer \<Rightarrow> mem \<Rightarrow> addr \<Rightarrow> addr \<Rightarrow> u32 \<Rightarrow> bool \<Rightarrow> wstate
     \<Rightarrow> error + wstate" where
  "walk 0 K render M blob p_strings version debug st = Inl OutOfFuel"
| "walk (Suc fuel) K render M blob p_strings version debug st =
     bind_res (walk_step K render M blob p_strings version debug st) (\<lambda>(again, st').
       if again then walk fuel K render M blob p_strings version debug st' else Inr st')"

subsection \<open>The header summary (lines 73-91) and the whole function\<close>

text \<open>A line of the summary prints one field; a field outside the buffer cannot be
  read.\<close>

definition hdr_line :: "string \<Rightarrow> (u32 \<Rightarrow> string) \<Rightarrow> mem \<Rightarrow> addr \<Rightarrow> addr \<Rightarrow> error + string" where
  "hdr_line label fmt M blob off = bind_res (hdr M blob off) (\<lambda>v. Inr (label @ fmt v @ nl))"

fun cat_res :: "(error + string) list \<Rightarrow> error + string" where
  "cat_res [] = Inr []"
| "cat_res (r # rs) = bind_res r (\<lambda>a. bind_res (cat_res rs) (\<lambda>b. Inr (a @ b)))"

definition fmt_0x_x :: "u32 \<Rightarrow> string" where
  "fmt_0x_x v = ''0x'' @ fmt_x (unat v)"

definition header_summary :: "fdt_decl \<Rightarrow> mem \<Rightarrow> addr \<Rightarrow> error + string" where
  "header_summary K M blob =
     bind_res (hdr M blob (o_version K)) (\<lambda>version.
       cat_res
         [hdr_line (''// magic:'' @ tab @ tab) fmt_0x_x M blob (o_magic K),
          hdr_line (''// totalsize:'' @ tab @ tab)
            (\<lambda>v. fmt_0x_x v @ '' ('' @ fmt_d v @ '')'') M blob (o_totalsize K),
          hdr_line (''// off_dt_struct:'' @ tab) fmt_0x_x M blob (o_off_dt_struct K),
          hdr_line (''// off_dt_strings:'' @ tab) fmt_0x_x M blob (o_off_dt_strings K),
          hdr_line (''// off_mem_rsvmap:'' @ tab) fmt_0x_x M blob (o_off_mem_rsvmap K),
          hdr_line (''// version:'' @ tab @ tab) fmt_d M blob (o_version K),
          hdr_line (''// last_comp_version:'' @ tab) fmt_d M blob (o_last_comp_version K),
          if 2 \<le> version
          then hdr_line (''// boot_cpuid_phys:'' @ tab) fmt_0x_x M blob (o_boot_cpuid_phys K)
          else Inr [],
          if 3 \<le> version
          then hdr_line (''// size_dt_strings:'' @ tab) fmt_0x_x M blob (o_size_dt_strings K)
          else Inr [],
          if 17 \<le> version
          then hdr_line (''// size_dt_struct:'' @ tab) fmt_0x_x M blob (o_size_dt_struct K)
          else Inr [],
          Inr nl])"

text \<open>\<open>dump_blob\<close> returns what it wrote to standard output and to standard error.\<close>

definition dump_blob ::
  "nat \<Rightarrow> fdt_decl \<Rightarrow> renderer \<Rightarrow> mem \<Rightarrow> addr \<Rightarrow> bool \<Rightarrow> error + (string \<times> string)" where
  "dump_blob fuel K render M blob debug =
     bind_res (hdr M blob (o_off_mem_rsvmap K)) (\<lambda>off_mem_rsvmap.
     bind_res (hdr M blob (o_off_dt_struct K)) (\<lambda>off_dt.
     bind_res (hdr M blob (o_off_dt_strings K)) (\<lambda>off_str.
     bind_res (hdr M blob (o_version K)) (\<lambda>version.
     bind_res (header_summary K M blob) (\<lambda>summary.
     bind_res (rsvmap_loop fuel M (blob + ucast off_mem_rsvmap) 0
                 (''/dts-v1/;'' @ nl @ summary)) (\<lambda>out1.
     bind_res (walk fuel K render M blob (blob + ucast off_str) version debug
                 \<lparr>p = blob + ucast off_dt, depth = 0, out = out1, err = []\<rparr>) (\<lambda>st.
       Inr (out st, err st))))))))"

section \<open>main\<close>

text \<open>
  What \<^verbatim>\<open>main\<close> finds at its argument: \<^verbatim>\<open>stat\<close> fails, or it is a directory, or
  \<^verbatim>\<open>utilfdt_read_len\<close> returns the buffer with the bytes of the file (\<open>None\<close> for NULL).
  Option parsing (lines 267-281) is left out: \<open>debug\<close> and \<open>scan\<close> are the flags it
  sets. The result of a run that returns is the standard output, the standard error and
  the exit status.
\<close>

datatype file_arg = NoStat | IsDir fnode | IsFile "mem option"

definition main ::
  "nat \<Rightarrow> fdt_decl \<Rightarrow> renderer \<Rightarrow> string \<Rightarrow> file_arg \<Rightarrow> bool \<Rightarrow> bool
     \<Rightarrow> error + (string \<times> string \<times> int)" where
  "main fuel K render file arg debug scan =
     (case arg of
        NoStat \<Rightarrow> Inl (Die [] (''could not open: '' @ file @ nl))
      | IsDir root \<Rightarrow>
          bind_res (dump_live fuel render file debug root) (\<lambda>out'. Inr (out', [], 0))
      | IsFile None \<Rightarrow> Inl (Die [] (''could not read: '' @ file @ nl))
      | IsFile (Some M) \<Rightarrow>
          bind_res
            (if scan then
               bind_res (scan_loop fuel K M file debug (base M)
                           (base M + of_nat (length (bytes M))) (base M) []) (\<lambda>(r, out1).
                 case r of
                   None \<Rightarrow> Inl (Die out1 (file @ '': could not locate fdt magic'' @ nl))
                 | Some q \<Rightarrow>
                     Inr (q, out1 @ file @ '': found fdt at offset ''
                                @ fmt_alt_x (unat (q - base M)) @ nl))
             else Inr (base M, [])) (\<lambda>(blob, out0).
          bind_res (dump_blob fuel K render M blob debug) (\<lambda>(out1, err1).
            Inr (out0 @ out1, err1, 0))))"

section \<open>Notions of the specification\<close>

text \<open>
  The state of the walker after \<open>k\<close> rounds of its loop, each of which went round again
  (\<open>None\<close> when one of them left the loop or read outside the buffer).
\<close>

fun rounds ::
  "nat \<Rightarrow> fdt_decl \<Rightarrow> renderer \<Rightarrow> mem \<Rightarrow> addr \<Rightarrow> addr \<Rightarrow> u32 \<Rightarrow> bool \<Rightarrow> wstate
     \<Rightarrow> wstate option" where
  "rounds 0 K render M blob p_strings version debug st = Some st"
| "rounds (Suc k) K render M blob p_strings version debug st =
     (case walk_step K render M blob p_strings version debug st of
        Inr (True, st') \<Rightarrow> rounds k K render M blob p_strings version debug st'
      | Inr (False, st') \<Rightarrow> None
      | Inl e \<Rightarrow> None)"

text \<open>The \<open>j\<close>-th pair of the reservation map at \<open>q\<close>: the address, then the size.\<close>

definition rsv_entry :: "mem \<Rightarrow> addr \<Rightarrow> nat \<Rightarrow> error + (u64 \<times> u64)" where
  "rsv_entry M q j =
     bind_res (be64 M (q + 16 * of_nat j)) (\<lambda>a.
     bind_res (be64 M (q + 16 * of_nat j + 8)) (\<lambda>s. Inr (a, s)))"

text \<open>
  The candidate at offset \<open>k\<close> of the buffer, in the words of the specification:
  its four bytes are the magic (\<open>magic_at\<close>), and its header has version at most 17,
  last compatible version below 17, and total size, structure offset and strings offset
  all smaller than the number of bytes from \<open>k\<close> to the end of the buffer.
  \<open>header_ok\<close> is \<open>None\<close> when one of the five fields lies outside the buffer.
\<close>

definition magic_at :: "fdt_decl \<Rightarrow> mem \<Rightarrow> nat \<Rightarrow> bool" where
  "magic_at K M k = (hdr M (base M + of_nat k) (o_magic K) = Inr (FDT_MAGIC K))"

definition not_magic_at :: "fdt_decl \<Rightarrow> mem \<Rightarrow> nat \<Rightarrow> bool" where
  "not_magic_at K M k =
     (case hdr M (base M + of_nat k) (o_magic K) of
        Inr m \<Rightarrow> m \<noteq> FDT_MAGIC K
      | Inl e \<Rightarrow> False)"

definition header_ok :: "fdt_decl \<Rightarrow> mem \<Rightarrow> nat \<Rightarrow> bool option" where
  "header_ok K M k =
     (let q = base M + of_nat k; remaining = length (bytes M) - k
      in case hdr M q (o_version K) of Inl e \<Rightarrow> None | Inr version \<Rightarrow>
         case hdr M q (o_last_comp_version K) of Inl e \<Rightarrow> None | Inr last_comp \<Rightarrow>
         case hdr M q (o_totalsize K) of Inl e \<Rightarrow> None | Inr totalsize \<Rightarrow>
         case hdr M q (o_off_dt_struct K) of Inl e \<Rightarrow> None | Inr off_dt \<Rightarrow>
         case hdr M q (o_off_dt_strings K) of Inl e \<Rightarrow> None | Inr off_str \<Rightarrow>
           Some (version \<le> 17 \<and> last_comp < 17 \<and> unat totalsize < remaining
                 \<and> unat off_dt < remaining \<and> unat off_str < remaining))"

definition accepted :: "fdt_decl \<Rightarrow> mem \<Rightarrow> nat \<Rightarrow> bool" where
  "accepted K M k = (magic_at K M k \<and> header_ok K M k = Some True)"

text \<open>A candidate that the scan passes over with every read inside the buffer: its four
  bytes are not the magic, or they are and its header, all in the buffer, fails a check.\<close>

definition rejected :: "fdt_decl \<Rightarrow> mem \<Rightarrow> nat \<Rightarrow> bool" where
  "rejected K M k =
     (not_magic_at K M k \<or> (magic_at K M k \<and> header_ok K M k = Some False))"

text \<open>The lines of diagnostic mode about the candidates in \<open>[i, j)\<close> whose first byte is
  the first byte of the magic and whose four bytes are the magic.\<close>

definition skip_line :: "fdt_decl \<Rightarrow> mem \<Rightarrow> string \<Rightarrow> bool \<Rightarrow> nat \<Rightarrow> string" where
  "skip_line K M fname debug k =
     (if debug \<and> bytes M ! k = smagic0 K \<and> magic_at K M k
      then fname @ '': skipping fdt magic at offset '' @ fmt_alt_x k @ nl
      else [])"

definition skipped :: "fdt_decl \<Rightarrow> mem \<Rightarrow> string \<Rightarrow> bool \<Rightarrow> nat \<Rightarrow> nat \<Rightarrow> string" where
  "skipped K M fname debug i j = concat (map (skip_line K M fname debug) [i..<j])"

section \<open>Concrete inputs\<close>

text \<open>A renderer for the concrete runs: the bytes in hexadecimal.\<close>

definition hex_render :: renderer where
  "hex_render len bs = '' = ['' @ concat (map (\<lambda>b. fmt_0x 2 (unat b)) bs) @ '']''"

text \<open>
  A file of 100 bytes read to address 0x1000: four bytes 0xff, then a blob of 95 bytes
  (version 2, an empty reservation map at 0x28, the structure block at 0x38 with the
  root node, one property of 8 bytes named \<open>ab\<close> and the end tags, the strings at
  0x5c), then one more byte.
\<close>

definition ex_embedded :: mem where
  "ex_embedded = \<lparr>base = 0x1000,
          bytes = [0xff, 0xff, 0xff, 0xff, 0xd0, 0xd, 0xfe, 0xed, 0x0, 0x0, 0x0, 0x5f, 0x0, 0x0, 0x0, 0x38,
                       0x0, 0x0, 0x0, 0x5c, 0x0, 0x0, 0x0, 0x28, 0x0, 0x0, 0x0, 0x2, 0x0, 0x0, 0x0, 0x2,
                       0x0, 0x0, 0x0, 0x0, 0x0, 0x0, 0x0, 0x3, 0x0, 0x0, 0x0, 0x24, 0x0, 0x0, 0x0, 0x0,
                       0x0, 0x0, 0x0, 0x0, 0x0, 0x0, 0x0, 0x0, 0x0, 0x0, 0x0, 0x0, 0x0, 0x0, 0x0, 0x1,
                       0x0, 0x0, 0x0, 0x0, 0x0, 0x0, 0x0, 0x3, 0x0, 0x0, 0x0, 0x8, 0x0, 0x0, 0x0, 0x0,
                       0x1, 0x2, 0x3, 0x4, 0x5, 0x6, 0x7, 0x8, 0x0, 0x0, 0x0, 0x2, 0x0, 0x0, 0x0, 0x9,
                       0x61, 0x62, 0x0, 0x0]\<rparr>"

text \<open>
  The example of the specification: a version 17 blob of 123 bytes with the reservation
  map \<open>[(0x1000, 0x200), (0, 0)]\<close> at 0x28, the structure block at 0x48 (the root node
  with the property \<open>compatible\<close> of 11 bytes) and the strings at 0x70.
\<close>

definition ex_acme :: mem where
  "ex_acme = \<lparr>base = 0x1000,
      bytes = [0xd0, 0xd, 0xfe, 0xed, 0x0, 0x0, 0x0, 0x7b, 0x0, 0x0, 0x0, 0x48, 0x0, 0x0, 0x0, 0x70,
               0x0, 0x0, 0x0, 0x28, 0x0, 0x0, 0x0, 0x11, 0x0, 0x0, 0x0, 0x10, 0x0, 0x0, 0x0, 0x0,
               0x0, 0x0, 0x0, 0xb, 0x0, 0x0, 0x0, 0x28, 0x0, 0x0, 0x0, 0x0, 0x0, 0x0, 0x10, 0x0,
               0x0, 0x0, 0x0, 0x0, 0x0, 0x0, 0x2, 0x0, 0x0, 0x0, 0x0, 0x0, 0x0, 0x0, 0x0, 0x0,
               0x0, 0x0, 0x0, 0x0, 0x0, 0x0, 0x0, 0x0, 0x0, 0x0, 0x0, 0x1, 0x0, 0x0, 0x0, 0x0,
               0x0, 0x0, 0x0, 0x3, 0x0, 0x0, 0x0, 0xb, 0x0, 0x0, 0x0, 0x0, 0x61, 0x63, 0x6d, 0x65,
               0x2c, 0x62, 0x6f, 0x61, 0x72, 0x64, 0x0, 0x0, 0x0, 0x0, 0x0, 0x2, 0x0, 0x0, 0x0, 0x9,
               0x63, 0x6f, 0x6d, 0x70, 0x61, 0x74, 0x69, 0x62, 0x6c, 0x65, 0x0]\<rparr>"

text \<open>A version 17 blob whose structure block at 0x38 is an \<^verbatim>\<open>FDT_END_NODE\<close> tag followed
  by \<^verbatim>\<open>FDT_END\<close>.\<close>

definition ex_unbalanced :: mem where
  "ex_unbalanced = \<lparr>base = 0x1000,
      bytes = [0xd0, 0xd, 0xfe, 0xed, 0x0, 0x0, 0x0, 0x40, 0x0, 0x0, 0x0, 0x38, 0x0, 0x0, 0x0, 0x40,
               0x0, 0x0, 0x0, 0x28, 0x0, 0x0, 0x0, 0x11, 0x0, 0x0, 0x0, 0x10, 0x0, 0x0, 0x0, 0x0,
               0x0, 0x0, 0x0, 0x0, 0x0, 0x0, 0x0, 0x8, 0x0, 0x0, 0x0, 0x0, 0x0, 0x0, 0x0, 0x0,
               0x0, 0x0, 0x0, 0x0, 0x0, 0x0, 0x0, 0x0, 0x0, 0x0, 0x0, 0x2, 0x0, 0x0, 0x0, 0x9]\<rparr>"

text \<open>A version 17 blob whose structure block at 0x38 opens the root node and then has the
  tag 5, followed by \<^verbatim>\<open>FDT_END_NODE\<close> and \<^verbatim>\<open>FDT_END\<close>.\<close>

definition ex_unknown :: mem where
  "ex_unknown = \<lparr>base = 0x1000,
      bytes = [0xd0, 0xd, 0xfe, 0xed, 0x0, 0x0, 0x0, 0x4c, 0x0, 0x0, 0x0, 0x38, 0x0, 0x0, 0x0, 0x4c,
               0x0, 0x0, 0x0, 0x28, 0x0, 0x0, 0x0, 0x11, 0x0, 0x0, 0x0, 0x10, 0x0, 0x0, 0x0, 0x0,
               0x0, 0x0, 0x0, 0x0, 0x0, 0x0, 0x0, 0x14, 0x0, 0x0, 0x0, 0x0, 0x0, 0x0, 0x0, 0x0,
               0x0, 0x0, 0x0, 0x0, 0x0, 0x0, 0x0, 0x0, 0x0, 0x0, 0x0, 0x1, 0x0, 0x0, 0x0, 0x0,
               0x0, 0x0, 0x0, 0x5, 0x0, 0x0, 0x0, 0x2, 0x0, 0x0, 0x0, 0x9]\<rparr>"

text \<open>The live tree of the specification: a directory with the file \<open>status\<close> (5 bytes)
  and the empty directory \<open>child\<close>, listed after the entries \<open>.\<close> and \<open>..\<close>.\<close>

definition ex_tree :: fnode where
  "ex_tree = Dir [(''.'', Dir []), (''..'', Dir []),
                  (''child'', Dir [(''.'', Dir []), (''..'', Dir [])]),
                  (''status'', Reg (RFile (Some 5) True (Some [0x6f, 0x6b, 0x61, 0x79, 0])))]"

text \<open>
  A file of 124 bytes for the scan: at offset 0 the magic with a header of version 99,
  at offset 28 the blob of \<open>ex_embedded\<close>, then one more byte.
\<close>

definition ex_scan :: mem where
  "ex_scan = \<lparr>base = 0x1000,
      bytes = [0xd0, 0xd, 0xfe, 0xed, 0x0, 0x0, 0x0, 0x0, 0x0, 0x0, 0x0, 0x0, 0x0, 0x0, 0x0, 0x0,
               0x0, 0x0, 0x0, 0x0, 0x0, 0x0, 0x0, 0x63, 0x0, 0x0, 0x0, 0x0, 0xd0, 0xd, 0xfe, 0xed,
               0x0, 0x0, 0x0, 0x5f, 0x0, 0x0, 0x0, 0x38, 0x0, 0x0, 0x0, 0x5c, 0x0, 0x0, 0x0, 0x28,
               0x0, 0x0, 0x0, 0x2, 0x0, 0x0, 0x0, 0x2, 0x0, 0x0, 0x0, 0x0, 0x0, 0x0, 0x0, 0x3,
               0x0, 0x0, 0x0, 0x24, 0x0, 0x0, 0x0, 0x0, 0x0, 0x0, 0x0, 0x0, 0x0, 0x0, 0x0, 0x0,
               0x0, 0x0, 0x0, 0x0, 0x0, 0x0, 0x0, 0x1, 0x0, 0x0, 0x0, 0x0, 0x0, 0x0, 0x0, 0x3,
               0x0, 0x0, 0x0, 0x8, 0x0, 0x0, 0x0, 0x0, 0x1, 0x2, 0x3, 0x4, 0x5, 0x6, 0x7, 0x8,
               0x0, 0x0, 0x0, 0x2, 0x0, 0x0, 0x0, 0x9, 0x61, 0x62, 0x0, 0x0]\<rparr>"

text \<open>A file of 8 bytes whose first three bytes are those of the magic.\<close>

definition ex_nomagic :: mem where
  "ex_nomagic = \<lparr>base = 0x1000, bytes = [0xd0, 0x0d, 0xfe, 0, 0, 0, 0, 0]\<rparr>"

text \<open>A file of 3 bytes, the first three bytes of the magic.\<close>

definition ex_short :: mem where
  "ex_short = \<lparr>base = 0x1000, bytes = [0xd0, 0x0d, 0xfe]\<rparr>"

text \<open>
  A version 2 blob of 99 bytes as the format lays it out: an empty reservation map at
  0x28, the structure block at 0x38 with the root node and one property named \<open>ab\<close>
  whose 8 bytes start at offset 0x50 of the blob, after 4 bytes of padding, then
  \<^verbatim>\<open>FDT_END_NODE\<close> at 0x58 and \<^verbatim>\<open>FDT_END\<close> at 0x5c, and the strings at 0x60.
  \<open>ex_v2\<close> is a file that holds the blob and nothing else; \<open>ex_v2_at_4\<close> is a
  file that holds four bytes 0xff, the same blob, and one more byte.
\<close>

definition ex_v2 :: mem where
  "ex_v2 = \<lparr>base = 0x1000,
      bytes = [0xd0, 0xd, 0xfe, 0xed, 0x0, 0x0, 0x0, 0x63, 0x0, 0x0, 0x0, 0x38, 0x0, 0x0, 0x0, 0x60,
               0x0, 0x0, 0x0, 0x28, 0x0, 0x0, 0x0, 0x2, 0x0, 0x0, 0x0, 0x2, 0x0, 0x0, 0x0, 0x0,
               0x0, 0x0, 0x0, 0x3, 0x0, 0x0, 0x0, 0x28, 0x0, 0x0, 0x0, 0x0, 0x0, 0x0, 0x0, 0x0,
               0x0, 0x0, 0x0, 0x0, 0x0, 0x0, 0x0, 0x0, 0x0, 0x0, 0x0, 0x1, 0x0, 0x0, 0x0, 0x0,
               0x0, 0x0, 0x0, 0x3, 0x0, 0x0, 0x0, 0x8, 0x0, 0x0, 0x0, 0x0, 0x0, 0x0, 0x0, 0x0,
               0x1, 0x2, 0x3, 0x4, 0x5, 0x6, 0x7, 0x8, 0x0, 0x0, 0x0, 0x2, 0x0, 0x0, 0x0, 0x9,
               0x61, 0x62, 0x0]\<rparr>"

definition ex_v2_at_4 :: mem where
  "ex_v2_at_4 = \<lparr>base = 0x1000, bytes = [0xff, 0xff, 0xff, 0xff] @ bytes ex_v2 @ [0]\<rparr>"

text \<open>A file that holds one byte 0xff, the blob of \<open>ex_acme\<close>, and one more byte.\<close>

definition ex_acme_at_1 :: mem where
  "ex_acme_at_1 = \<lparr>base = 0x1000, bytes = [0xff] @ bytes ex_acme @ [0]\<rparr>"

text \<open>A file of 5 bytes: the magic and one more byte.\<close>

definition ex_five :: mem where
  "ex_five = \<lparr>base = 0x1000, bytes = [0xd0, 0x0d, 0xfe, 0xed, 0]\<rparr>"

text \<open>A directory with one regular file for which \<^verbatim>\<open>stat\<close> reports a size of 4096
  bytes and \<^verbatim>\<open>read\<close> delivers 4 bytes and then the end of the file, as the attribute
  files of sysfs do.\<close>

definition ex_short_read :: fnode where
  "ex_short_read = Dir [(''.'', Dir []), (''..'', Dir []),
                        (''dev'', Reg (RFile (Some 4096) True (Some [0x38, 0x3a, 0x30, 0x0a])))]"

text \<open>A version 2 blob whose structure block at 0x38 opens the root node and then has a
  property with the length cell 0xfffffff8, which is -8 as an \<^verbatim>\<open>int\<close>, followed by
  \<^verbatim>\<open>FDT_END_NODE\<close> and \<^verbatim>\<open>FDT_END\<close>; the strings at 0x54 hold the name \<open>ab\<close>.\<close>

definition ex_neglen :: mem where
  "ex_neglen = \<lparr>base = 0x1000,
      bytes = [0xd0, 0xd, 0xfe, 0xed, 0x0, 0x0, 0x0, 0x57, 0x0, 0x0, 0x0, 0x38, 0x0, 0x0, 0x0, 0x54,
               0x0, 0x0, 0x0, 0x28, 0x0, 0x0, 0x0, 0x2, 0x0, 0x0, 0x0, 0x2, 0x0, 0x0, 0x0, 0x0,
               0x0, 0x0, 0x0, 0x3, 0x0, 0x0, 0x0, 0x1c, 0x0, 0x0, 0x0, 0x0, 0x0, 0x0, 0x0, 0x0,
               0x0, 0x0, 0x0, 0x0, 0x0, 0x0, 0x0, 0x0, 0x0, 0x0, 0x0, 0x1, 0x0, 0x0, 0x0, 0x0,
               0x0, 0x0, 0x0, 0x3, 0xff, 0xff, 0xff, 0xf8, 0x0, 0x0, 0x0, 0x0, 0x0, 0x0, 0x0, 0x2,
               0x0, 0x0, 0x0, 0x9, 0x61, 0x62, 0x0]\<rparr>"

text \<open>What the runs on these inputs print (without diagnostic mode).\<close>

definition acme_dts :: string where
  "acme_dts =
     ''/dts-v1/;'' @ nl
     @ ''// magic:'' @ tab @ tab @ ''0xd00dfeed'' @ nl
     @ ''// totalsize:'' @ tab @ tab @ ''0x7b (123)'' @ nl
     @ ''// off_dt_struct:'' @ tab @ ''0x48'' @ nl
     @ ''// off_dt_strings:'' @ tab @ ''0x70'' @ nl
     @ ''// off_mem_rsvmap:'' @ tab @ ''0x28'' @ nl
     @ ''// version:'' @ tab @ tab @ ''17'' @ nl
     @ ''// last_comp_version:'' @ tab @ ''16'' @ nl
     @ ''// boot_cpuid_phys:'' @ tab @ ''0x0'' @ nl
     @ ''// size_dt_strings:'' @ tab @ ''0xb'' @ nl
     @ ''// size_dt_struct:'' @ tab @ ''0x28'' @ nl @ nl
     @ ''/memreserve/ 0x1000 0x200;'' @ nl
     @ ''/ {'' @ nl
     @ ''    compatible = [61636d652c626f61726400];'' @ nl
     @ ''};'' @ nl"

definition embedded_dts :: string where
  "embedded_dts =
     ''f: found fdt at offset 0x4'' @ nl
     @ ''/dts-v1/;'' @ nl
     @ ''// magic:'' @ tab @ tab @ ''0xd00dfeed'' @ nl
     @ ''// totalsize:'' @ tab @ tab @ ''0x5f (95)'' @ nl
     @ ''// off_dt_struct:'' @ tab @ ''0x38'' @ nl
     @ ''// off_dt_strings:'' @ tab @ ''0x5c'' @ nl
     @ ''// off_mem_rsvmap:'' @ tab @ ''0x28'' @ nl
     @ ''// version:'' @ tab @ tab @ ''2'' @ nl
     @ ''// last_comp_version:'' @ tab @ ''2'' @ nl
     @ ''// boot_cpuid_phys:'' @ tab @ ''0x0'' @ nl @ nl
     @ ''/ {'' @ nl
     @ ''    ab = [0102030405060708];'' @ nl
     @ ''};'' @ nl"

definition tree_dts :: string where
  "tree_dts =
     ''/* dump of live tree at root */'' @ nl
     @ ''/ {'' @ nl
     @ ''    status = [6f6b617900];'' @ nl
     @ ''    child {'' @ nl
     @ ''    };'' @ nl
     @ ''};'' @ nl"
section \<open>Alignment\<close>

lemma and_not_sub: "(y::64 word) AND NOT m = y - (y AND m)"
  by (simp add: bit.conj_disj_distrib disjunctive_diff_eq_and_not
    word_bw_comms(1) word_bw_lcs(1))

lemma ALIGN_4_low: "ALIGN x 4 AND 3 = 0"
  by (simp add: ALIGN_def bit_eq_iff bit_simps)

lemma ALIGN_8_low: "ALIGN x 8 AND 7 = 0"
  by (simp add: ALIGN_def bit_eq_iff bit_simps)

lemma ALIGN_4_near: "ALIGN x 4 - x \<le> 3"
proof -
  have "ALIGN x 4 - x = 3 - ((x + 3) AND 3)"
    using and_not_sub [of "x + 3" 3] by (simp add: ALIGN_def)
  moreover have "(x + 3) AND 3 \<le> 3"
    by (rule word_and_le1)
  ultimately show ?thesis
    by (simp add: word_sub_le)
qed

lemma ALIGN_8_near: "ALIGN x 8 - x \<le> 7"
proof -
  have "ALIGN x 8 - x = 7 - ((x + 7) AND 7)"
    using and_not_sub [of "x + 7" 7] by (simp add: ALIGN_def)
  moreover have "(x + 7) AND 7 \<le> 7"
    by (rule word_and_le1)
  ultimately show ?thesis
    by (simp add: word_sub_le)
qed

lemma and_7_iff: "((w :: 64 word) AND 7 = 0) = (uint w mod 8 = 0)"
proof -
  have "w AND 7 = take_bit 3 w"
    using take_bit_eq_mask [of 3 w] by (simp add: mask_eq_exp_minus_1)
  moreover have "(take_bit 3 w = 0) = (uint (take_bit 3 w) = 0)"
    by (simp add: word_uint_eq_iff)
  moreover have "uint (take_bit 3 w) = uint w mod 8"
  proof -
    have "uint (take_bit 3 w) = take_bit 3 (uint w)"
      by (rule unsigned_take_bit_eq)
    then show ?thesis by (simp add: take_bit_eq_mod)
  qed
  ultimately show ?thesis by simp
qed

lemma uint_sub_mod8: "uint ((a::64 word) - b) mod 8 = (uint a - uint b) mod 8"
proof -
  have "uint (a - b) = (uint a - uint b) mod 2 ^ 64"
    by (simp add: uint_word_ariths)
  moreover have "((uint a - uint b) mod 2 ^ 64) mod 8 = (uint a - uint b) mod 8"
    by (rule mod_mod_cancel) simp
  ultimately show ?thesis by simp
qed

text \<open>An address that is a multiple of 8 is a multiple of 8 as an offset from \<open>b\<close> exactly
  when \<open>b\<close> is one.\<close>

lemma aligned_offset_iff:
  "(a::64 word) AND 7 = 0 \<Longrightarrow> ((a - b) AND 7 = 0) = (b AND 7 = 0)"
  unfolding and_7_iff uint_sub_mod8 by presburger

lemma and_3_iff: "((w :: 64 word) AND 3 = 0) = (uint w mod 4 = 0)"
proof -
  have "w AND 3 = take_bit 2 w"
    using take_bit_eq_mask [of 2 w] by (simp add: mask_eq_exp_minus_1)
  moreover have "(take_bit 2 w = 0) = (uint (take_bit 2 w) = 0)"
    by (simp add: word_uint_eq_iff)
  moreover have "uint (take_bit 2 w) = uint w mod 4"
  proof -
    have "uint (take_bit 2 w) = take_bit 2 (uint w)"
      by (rule unsigned_take_bit_eq)
    then show ?thesis by (simp add: take_bit_eq_mod)
  qed
  ultimately show ?thesis by simp
qed

lemma uint_sub_mod4: "uint ((a::64 word) - b) mod 4 = (uint a - uint b) mod 4"
proof -
  have "uint (a - b) = (uint a - uint b) mod 2 ^ 64"
    by (simp add: uint_word_ariths)
  moreover have "((uint a - uint b) mod 2 ^ 64) mod 4 = (uint a - uint b) mod 4"
    by (rule mod_mod_cancel) simp
  ultimately show ?thesis by simp
qed

lemma aligned_offset_iff4:
  "(a::64 word) AND 3 = 0 \<Longrightarrow> ((a - b) AND 3 = 0) = (b AND 3 = 0)"
  unfolding and_3_iff uint_sub_mod4 by presburger

section \<open>Reading memory\<close>

lemma cstr_Inr:
  assumes "cstr M a = Inr s"
  shows "0 \<notin> set s" and "rd_bytes M a (Suc (length s)) = Inr (s @ [0])"
proof -
  define i where "i = unat (a - base M)"
  define rest where "rest = drop i (bytes M)"
  from assms have s: "s = takeWhile (\<lambda>b. b \<noteq> 0) rest" and len: "i + length s < length (bytes M)"
    by (auto simp: cstr_def Let_def i_def rest_def split: if_splits)
  from s show "0 \<notin> set s"
    by (auto dest: set_takeWhileD)
  from len have lt: "length s < length rest"
    by (simp add: rest_def)
  with s have "rest ! length s = 0"
    using nth_length_takeWhile [of "\<lambda>b. b \<noteq> 0" rest] by simp
  moreover have "take (length s) rest = s"
    using s takeWhile_eq_take [of "\<lambda>b. b \<noteq> 0" rest] by simp
  ultimately have "take (Suc (length s)) rest = s @ [0]"
    using lt by (simp add: take_Suc_conv_app_nth)
  with len show "rd_bytes M a (Suc (length s)) = Inr (s @ [0])"
    by (simp add: rd_bytes_def Let_def i_def rest_def)
qed

section \<open>Rounds of the walker\<close>

text \<open>A round of the walker that reads the tag \<^verbatim>\<open>FDT_PROP\<close>.\<close>

lemma prop_step:
  assumes tag: "be32 M (p st) = Inr (FDT_PROP K)"
    and ne: "FDT_PROP K \<noteq> FDT_END K" "FDT_PROP K \<noteq> FDT_BEGIN_NODE K"
            "FDT_PROP K \<noteq> FDT_END_NODE K" "FDT_PROP K \<noteq> FDT_NOP K"
    and sz: "be32 M (p st + 4) = Inr sz"
    and nameoff: "be32 M (p st + 8) = Inr nameoff"
    and name: "cstr M (p_strings + ucast nameoff) = Inr name"
    and val: "span M (value_start version sz (p st + 12)) sz = Inr v"
  shows "walk_step K render M blob p_strings version debug st =
           Inr (True, st\<lparr>p := PALIGN (value_start version sz (p st + 12) + scast sz) 4,
                  out := out st
                    @ dumpf debug (fmt_0x 4 (unat (p st - blob)) @ '': tag: 0x''
                        @ fmt_0x 8 (unat (FDT_PROP K)) @ '' ('' @ tagname K (FDT_PROP K)
                        @ '')'' @ nl)
                    @ dumpf debug (fmt_0x 4 (unat (p_strings + ucast nameoff - blob))
                        @ '': string: '' @ chars name @ nl)
                    @ dumpf debug (fmt_0x 4 (unat (value_start version sz (p st + 12) - blob))
                        @ '': value'' @ nl)
                    @ pad (depth st * shift) @ chars name @ render (sint sz) v @ '';'' @ nl\<rparr>)"
proof -
  have a: "p st + 4 + 4 = p st + 8" "p st + 4 + 8 = p st + 12"
    by simp_all
  show ?thesis
    using assms by (simp add: walk_step_def Let_def a)
qed

section \<open>Running the model on concrete inputs\<close>

text \<open>
  The simplifier runs the model when it is given the definitions, with the fuel of each
  loop unfolded one round at a time and with \<open>bind_res\<close> evaluated from the left (the
  continuation is looked at only once the result it is applied to is known).
\<close>

lemma walk_numeral: "walk (numeral k) K render M blob p_strings version debug st =
     bind_res (walk_step K render M blob p_strings version debug st) (\<lambda>(again, st').
       if again then walk (pred_numeral k) K render M blob p_strings version debug st'
       else Inr st')"
  by (simp add: numeral_eq_Suc)

lemma rsvmap_loop_numeral: "rsvmap_loop (numeral k) M p_rsvmap i so =
     bind_res (be64 M (p_rsvmap + 16 * of_nat i)) (\<lambda>addr.
     bind_res (be64 M (p_rsvmap + 16 * of_nat i + 8)) (\<lambda>size.
       if addr = 0 \<and> size = 0 then Inr so
       else rsvmap_loop (pred_numeral k) M p_rsvmap (Suc i) (so @ memreserve_line addr size)))"
  by (simp add: numeral_eq_Suc)

lemma bind_res_weak_cong: "r = r' \<Longrightarrow> bind_res r f = bind_res r' f"
  by simp

lemmas run_defs =
  dump_blob_def walk_step_def header_summary_def hdr_line_def hdr_def be32_def be64_def
  rd_bytes_def be_val_def fdt_h_def fmt_0x_x_def fmt_x_def fmt_d_def hex.simps dec.simps
  hexdigit_def nl_def tab_def cstr_def span_def value_start_def PALIGN_def ALIGN_def dumpf_def
  pad_def shift_def chars_def fmt_0x_def fmt_alt_x_def Let_def walk_numeral rsvmap_loop_numeral
  memreserve_line_def tagname_def main_def memchr_def smagic0_def plausible_def word_sless_alt
  word_sle_eq

lemma scan_loop_numeral: "scan_loop (numeral k) K M file debug buf endp q so =
     bind_res (memchr M q (smagic0 K) (unat (endp - q - 4))) (\<lambda>r.
       case r of
         None \<Rightarrow> Inr (None, so)
       | Some q' \<Rightarrow>
           bind_res (hdr M q' (o_magic K)) (\<lambda>magic.
             if magic = FDT_MAGIC K then
               bind_res (plausible K M endp q') (\<lambda>ok.
                 if ok then Inr (Some q', so)
                 else scan_loop (pred_numeral k) K M file debug buf endp (q' + 1)
                        (so @ (if debug
                                then file @ '': skipping fdt magic at offset ''
                                       @ fmt_alt_x (unat (q' - buf)) @ nl
                                else [])))
             else scan_loop (pred_numeral k) K M file debug buf endp (q' + 1) so))"
  by (simp add: numeral_eq_Suc)

lemma replicate_numeral_unfold: "replicate (numeral k) x = x # replicate (pred_numeral k) x"
  by (simp add: numeral_eq_Suc)

lemmas run_simps =
  run_defs scan_loop_numeral replicate_numeral_unfold char_of_def bit_Suc_0_iff

lemma read_loop_numeral: "read_loop (numeral k) new_path so d pos left buf =
     (if 0 < left then
        (case d of
           None \<Rightarrow> Inl (Die so (''Read failed on: '' @ new_path @ nl))
         | Some bs \<Rightarrow>
             let ret = min left (length bs - pos)
             in read_loop (pred_numeral k) new_path so d (pos + ret) (left - ret)
                  (buf @ take ret (drop pos bs)))
      else Inr buf)"
  by (simp add: numeral_eq_Suc)

lemmas live_simps =
  dump_live_def dump_file_def read_loop_numeral strip_trailing.simps buf_alloc_def

section \<open>Results of binds\<close>

lemma bind_res_eq_Inr: "(bind_res r f = Inr x) = (\<exists>y. r = Inr y \<and> f y = Inr x)"
  by (cases r) auto

text \<open>A run of \<open>main\<close> that returns has the exit status 0: the only \<^verbatim>\<open>return\<close>
  statements of \<^verbatim>\<open>main\<close> are \<^verbatim>\<open>return 0\<close>.\<close>

lemma main_returns_0:
  assumes "main fuel K render file arg debug scan = Inr (so, se, status)"
  shows "status = 0"
  using assms
  by (auto simp: main_def bind_res_eq_Inr split: file_arg.splits option.splits prod.splits)

section \<open>The output only grows\<close>

lemma rsvmap_loop_prefix:
  "rsvmap_loop fuel M q i so = Inr so' \<Longrightarrow> prefix so so'"
proof (induction fuel arbitrary: i so)
  case 0
  then show ?case by simp
next
  case (Suc fuel)
  from Suc.prems obtain a s where
    r: "(if a = 0 \<and> s = 0 then Inr so
         else rsvmap_loop fuel M q (Suc i) (so @ memreserve_line a s)) = Inr so'"
    by (auto simp: bind_res_eq_Inr)
  show ?case
  proof (cases "a = 0 \<and> s = 0")
    case True
    with r show ?thesis by simp
  next
    case False
    with r have "prefix (so @ memreserve_line a s) so'"
      using Suc.IH by simp
    then show ?thesis
      using append_prefixD by blast
  qed
qed

lemma walk_step_prefix:
  "walk_step K render M blob p_strings version debug st = Inr (again, st') \<Longrightarrow>
   prefix (out st) (out st')"
  by (auto simp: walk_step_def Let_def bind_res_eq_Inr split: if_splits)

lemma walk_prefix:
  "walk fuel K render M blob p_strings version debug st = Inr st' \<Longrightarrow>
   prefix (out st) (out st')"
proof (induction fuel arbitrary: st)
  case 0
  then show ?case by simp
next
  case (Suc fuel)
  from Suc.prems obtain again st1 where
    s: "walk_step K render M blob p_strings version debug st = Inr (again, st1)"
    and r: "(if again then walk fuel K render M blob p_strings version debug st1 else Inr st1)
              = Inr st'"
    by (auto simp: bind_res_eq_Inr)
  from s have 1: "prefix (out st) (out st1)"
    by (rule walk_step_prefix)
  show ?case
  proof (cases again)
    case True
    with r have "prefix (out st1) (out st')"
      using Suc.IH by simp
    with 1 show ?thesis by (rule prefix_order.trans)
  next
    case False
    with r 1 show ?thesis by simp
  qed
qed


lemma dump_blob_prefix:
  assumes "dump_blob fuel K render M blob debug = Inr (so, se)"
  shows "\<exists>summary. header_summary K M blob = Inr summary
           \<and> prefix (''/dts-v1/;'' @ nl @ summary) so"
  using assms unfolding dump_blob_def bind_res_eq_Inr
proof (elim exE conjE)
  fix off_mem_rsvmap off_dt off_str :: u32 and version summary out1 st
  assume h: "header_summary K M blob = Inr summary"
    and r: "rsvmap_loop fuel M (blob + ucast off_mem_rsvmap) 0 (''/dts-v1/;'' @ nl @ summary)
              = Inr out1"
    and w: "walk fuel K render M blob (blob + ucast off_str) version debug
              \<lparr>p = blob + ucast off_dt, depth = 0, out = out1, err = []\<rparr> = Inr st"
    and res: "Inr (out st, err st) = (Inr (so, se) :: error + string \<times> string)"
  from r have "prefix (''/dts-v1/;'' @ nl @ summary) out1"
    by (rule rsvmap_loop_prefix)
  moreover from w have "prefix out1 (out st)"
    using walk_prefix by fastforce
  moreover from res have "so = out st"
    by simp
  ultimately show ?thesis
    using h prefix_order.trans by blast
qed

lemma dump_file_prefix:
  "dump_file fuel render path dep name f so = Inr so' \<Longrightarrow> prefix so so'"
  by (auto simp: dump_file_def Let_def bind_res_eq_Inr split: option.splits if_splits)

lemma dump_props_prefix:
  "dump_props fuel render path dep es so = Inr so' \<Longrightarrow> prefix so so'"
proof (induction fuel render path dep es so rule: dump_props.induct)
  case (1 fuel render path dep so)
  then show ?case by simp
next
  case (2 fuel render path dep name f es so)
  from "2.prems" obtain so1 where
    f: "dump_file fuel render path dep name f so = Inr so1"
    and r: "dump_props fuel render path dep es so1 = Inr so'"
    by (auto simp: bind_res_eq_Inr)
  from f have "prefix so so1"
    by (rule dump_file_prefix)
  moreover from r have "prefix so1 so'"
    using "2.IH" f by simp
  ultimately show ?case
    by (rule prefix_order.trans)
qed simp_all

lemma dump_live_internal_prefix:
  "dump_live_internal fuel render path debug dep n so = Inr so' \<Longrightarrow> prefix so so'"
  and dump_subdirs_prefix:
  "dump_subdirs fuel render path debug dep es so = Inr so' \<Longrightarrow> prefix so so'"
proof (induction fuel render path debug dep n so and fuel render path debug dep es so
    arbitrary: so' and so' rule: dump_live_internal_dump_subdirs.induct)
  case (1 fuel render path debug dep es so)
  from "1.prems" obtain so1 where
    a: "dump_props fuel render path dep es so = Inr so1"
    and b: "dump_subdirs fuel render path debug dep es so1 = Inr so'"
    by (auto simp: bind_res_eq_Inr)
  from a have "prefix so so1"
    by (rule dump_props_prefix)
  moreover from b have "prefix so1 so'"
    using "1.IH" a by simp
  ultimately show ?case
    by (rule prefix_order.trans)
next
  case (4 fuel render path debug dep name n es so)
  show ?case
  proof (cases "is_dir n \<and> name \<noteq> ''.'' \<and> name \<noteq> ''..''")
    case True
    with "4.prems" obtain so1 where
      a: "dump_live_internal fuel render (path @ ''/'' @ name) debug (dep + 1) n
            (so @ pad (dep * shift) @ name @ '' {'' @ nl) = Inr so1"
      and b: "dump_subdirs fuel render path debug dep es
            (so1 @ pad (dep * shift) @ ''};'' @ nl) = Inr so'"
      by (auto simp: bind_res_eq_Inr)
    from a True have "prefix (so @ pad (dep * shift) @ name @ '' {'' @ nl) so1"
      using "4.IH"(1) by simp
    then have 1: "prefix so so1"
      using append_prefixD by blast
    from b True a have "prefix (so1 @ pad (dep * shift) @ ''};'' @ nl) so'"
      using "4.IH"(2) by simp
    then have "prefix so1 so'"
      using append_prefixD by blast
    with 1 show ?thesis
      by (rule prefix_order.trans)
  next
    case False
    with "4.prems" have "dump_subdirs fuel render path debug dep es so = Inr so'"
      by auto
    with False show ?thesis
      using "4.IH"(3) by simp
  qed
qed simp_all

lemma scan_loop_quiet:
  "scan_loop fuel K M file False buf endp q so = Inr (r, so') \<Longrightarrow> so' = so"
proof (induction fuel arbitrary: q)
  case 0
  then show ?case by simp
next
  case (Suc fuel)
  then show ?case
    by (auto simp: bind_res_eq_Inr split: option.splits if_splits)
qed

lemma prefix_appendD: "prefix (a @ b) c \<Longrightarrow> prefix a c"
  using append_prefixD by blast

section \<open>The loops\<close>

lemma rsvmap_loop_Suc_entry:
  "rsv_entry M q i = Inr (a, s) \<Longrightarrow>
   rsvmap_loop (Suc fuel) M q i so =
     (if a = 0 \<and> s = 0 then Inr so
      else rsvmap_loop fuel M q (Suc i) (so @ memreserve_line a s))"
  by (auto simp: rsv_entry_def bind_res_eq_Inr)

lemma rsvmap_loop_from:
  assumes "\<forall>j < length es. rsv_entry M q (i + j) = Inr (es ! j)"
    and "(0, 0) \<notin> set es"
    and "rsv_entry M q (i + length es) = Inr (0, 0)"
    and "length es < fuel"
  shows "rsvmap_loop fuel M q i so =
           Inr (so @ concat (map (\<lambda>(a, s). memreserve_line a s) es))"
  using assms
proof (induction es arbitrary: i so fuel)
  case Nil
  then obtain f where "fuel = Suc f"
    by (cases fuel) auto
  with Nil show ?case
    by (simp add: rsvmap_loop_Suc_entry del: rsvmap_loop.simps)
next
  case (Cons e es)
  obtain a s where e: "e = (a, s)"
    by (cases e)
  from Cons.prems(4) obtain f where fuel: "fuel = Suc f" and f: "length es < f"
    by (cases fuel) auto
  from Cons.prems(1) have here: "rsv_entry M q i = Inr (a, s)"
    using e by fastforce
  from Cons.prems(2) e have nz: "\<not> (a = 0 \<and> s = 0)"
    by auto
  have later: "\<forall>j < length es. rsv_entry M q (Suc i + j) = Inr (es ! j)"
  proof (intro allI impI)
    fix j assume "j < length es"
    then have "rsv_entry M q (i + Suc j) = Inr ((e # es) ! Suc j)"
      using Cons.prems(1) by (metis Suc_less_eq length_Cons)
    then show "rsv_entry M q (Suc i + j) = Inr (es ! j)"
      by simp
  qed
  have "rsvmap_loop f M q (Suc i) (so @ memreserve_line a s) =
          Inr ((so @ memreserve_line a s) @ concat (map (\<lambda>(a, s). memreserve_line a s) es))"
    using Cons.IH [OF later _ _ f] Cons.prems(2,3) by simp
  moreover have "rsvmap_loop (Suc f) M q i so =
          rsvmap_loop f M q (Suc i) (so @ memreserve_line a s)"
    using rsvmap_loop_Suc_entry [OF here] nz by (auto simp del: rsvmap_loop.simps)
  ultimately show ?case
    by (simp add: fuel e del: rsvmap_loop.simps)
qed

lemma read_loop_done: "read_loop fuel new_path so d pos 0 buf = Inr buf"
  by (cases fuel) simp_all

section \<open>The scan\<close>

lemma be_val4_top: "ucast (drop_bit 24 (be_val [b0, b1, b2, b3] :: u32)) = (b0 :: byte)"
  apply (simp add: be_val_def)
  apply (rule bit_eqI)
  apply (auto simp add: bit_simps dest: bit_imp_le_length)
  done

lemma unat_of_nat64: "i < 2 ^ 64 \<Longrightarrow> unat (of_nat i :: addr) = i"
  by (simp add: unat_of_nat)

lemma scan_n:
  assumes "i + 4 \<le> L" "L < 2 ^ 64"
  shows "unat ((b :: addr) + of_nat L - (b + of_nat i) - 4) = L - i - 4"
proof -
  have "of_nat (L - i - 4) = (of_nat L :: addr) - of_nat i - 4"
    using assms by (simp add: of_nat_diff)
  then have "(b :: addr) + of_nat L - (b + of_nat i) - 4 = of_nat (L - i - 4)"
    by simp
  moreover have "unat (of_nat (L - i - 4) :: addr) = L - i - 4"
    using assms by (intro unat_of_nat64) simp
  ultimately show ?thesis
    by (simp only:)
qed

lemma sint_remaining:
  assumes "i \<le> L" "L < 2 ^ 63"
  shows "sint ((b :: addr) + of_nat L - (b + of_nat i)) = int (L - i)"
proof -
  have "of_nat (L - i) = (of_nat L :: addr) - of_nat i"
    using assms by (simp add: of_nat_diff)
  then have 1: "(b :: addr) + of_nat L - (b + of_nat i) = of_nat (L - i)"
    by simp
  have "L - i < 2 ^ 63"
    using assms by simp
  then have "int (L - i) < 2 ^ 63"
    by (metis of_nat_less_iff of_nat_numeral of_nat_power)
  moreover have "- (2 ^ 63) \<le> int (L - i)"
    by (smt (verit) of_nat_0_le_iff zero_less_power)
  ultimately have "signed_take_bit 63 (int (L - i)) = int (L - i)"
    by (intro signed_take_bit_int_eq_self)
  then have "sint (of_nat (L - i) :: addr) = int (L - i)"
    by (simp add: signed_of_nat)
  with 1 show ?thesis
    by (simp only:)
qed

lemma memchr_nat:
  assumes "i < 2 ^ 64"
  shows "memchr M (base M + of_nat i) c n =
     (if length (takeWhile (\<lambda>b. b \<noteq> c) (take n (drop i (bytes M))))
           < length (take n (drop i (bytes M)))
      then Inr (Some (base M + of_nat (i + length (takeWhile (\<lambda>b. b \<noteq> c)
                                              (take n (drop i (bytes M)))))))
      else if i + n \<le> length (bytes M) then Inr None
      else Inl OutOfBounds)"
  using assms unat_of_nat64 [of i]
  by (simp add: memchr_def Let_def add.assoc del: length_take)

lemma memchr_zero:
  assumes "i \<le> length (bytes M)" "i < 2 ^ 64"
  shows "memchr M (base M + of_nat i) c 0 = Inr None"
  using assms by (simp add: memchr_nat)

lemma memchr_here:
  assumes "i < length (bytes M)" "i < 2 ^ 64" "bytes M ! i = c"
  shows "memchr M (base M + of_nat i) c (Suc n) = Inr (Some (base M + of_nat i))"
proof -
  have "drop i (bytes M) = c # drop (Suc i) (bytes M)"
    using assms Cons_nth_drop_Suc [of i "bytes M"] by simp
  then show ?thesis
    using assms by (simp add: memchr_nat)
qed

lemma memchr_skip:
  assumes "i < length (bytes M)" "Suc i < 2 ^ 64" "bytes M ! i \<noteq> c"
  shows "memchr M (base M + of_nat i) c (Suc n) = memchr M (base M + of_nat (Suc i)) c n"
proof -
  define w where "w = take n (drop (Suc i) (bytes M))"
  have d: "drop i (bytes M) = bytes M ! i # drop (Suc i) (bytes M)"
    using assms Cons_nth_drop_Suc [of i "bytes M"] by simp
  have t: "take (Suc n) (drop i (bytes M)) = bytes M ! i # w"
    by (subst d) (simp add: w_def)
  have i: "i < 2 ^ 64"
    using assms by simp
  show ?thesis
    unfolding memchr_nat [OF i] memchr_nat [OF assms(2)] t
    unfolding w_def [symmetric]
    using assms(3) by simp
qed

lemma plausible_header_ok:
  assumes ok: "header_ok K M k = Some b"
    and k: "k \<le> length (bytes M)"
    and L: "length (bytes M) < 2 ^ 63"
  shows "plausible K M (base M + of_nat (length (bytes M))) (base M + of_nat k) = Inr b"
proof -
  have len: "sint (base M + of_nat (length (bytes M)) - (base M + of_nat k))
               = int (length (bytes M) - k)"
    using k L by (rule sint_remaining)
  have lt: "(uint x < int n) = (unat x < n)" for x :: u32 and n
    by (simp only: uint_nat of_nat_less_iff)
  from ok obtain v l t s g where
    f: "hdr M (base M + of_nat k) (o_version K) = Inr v"
       "hdr M (base M + of_nat k) (o_last_comp_version K) = Inr l"
       "hdr M (base M + of_nat k) (o_totalsize K) = Inr t"
       "hdr M (base M + of_nat k) (o_off_dt_struct K) = Inr s"
       "hdr M (base M + of_nat k) (o_off_dt_strings K) = Inr g"
    and b: "b = (v \<le> 17 \<and> l < 17 \<and> unat t < length (bytes M) - k
                 \<and> unat s < length (bytes M) - k \<and> unat g < length (bytes M) - k)"
    by (auto simp: header_ok_def Let_def split: sum.splits)
  show ?thesis
    unfolding plausible_def Let_def len f bind_res.simps lt b
    by simp
qed

lemma scan_step_end:
  assumes "i + 4 = length (bytes M)" "length (bytes M) < 2 ^ 63"
  shows "scan_loop (Suc fuel) K M fname debug (base M) (base M + of_nat (length (bytes M)))
           (base M + of_nat i) so = Inr (None, so)"
proof -
  have n: "unat (base M + of_nat (length (bytes M)) - (base M + of_nat i) - 4) = 0"
    using assms scan_n [of i "length (bytes M)" "base M"] by simp
  have "memchr M (base M + of_nat i) (smagic0 K) 0 = Inr None"
    using assms by (intro memchr_zero) simp_all
  with n show ?thesis
    by simp
qed

lemma scan_step_skip:
  assumes i: "i + 4 < length (bytes M)" and L: "length (bytes M) < 2 ^ 63"
    and ne: "bytes M ! i \<noteq> smagic0 K"
  shows "scan_loop (Suc fuel) K M fname debug (base M) (base M + of_nat (length (bytes M)))
           (base M + of_nat i) so =
         scan_loop (Suc fuel) K M fname debug (base M) (base M + of_nat (length (bytes M)))
           (base M + of_nat (Suc i)) so"
proof -
  have n: "unat (base M + of_nat (length (bytes M)) - (base M + of_nat i) - 4)
             = Suc (length (bytes M) - Suc i - 4)"
    using i L scan_n [of i "length (bytes M)" "base M"] by simp
  have n': "unat (base M + of_nat (length (bytes M)) - (base M + of_nat (Suc i)) - 4)
             = length (bytes M) - Suc i - 4"
    using i L scan_n [of "Suc i" "length (bytes M)" "base M"] by simp
  have "memchr M (base M + of_nat i) (smagic0 K) (Suc (length (bytes M) - Suc i - 4)) =
        memchr M (base M + of_nat (Suc i)) (smagic0 K) (length (bytes M) - Suc i - 4)"
    using i L ne by (intro memchr_skip) simp_all
  then show ?thesis
    unfolding scan_loop.simps n n' by (simp only:)
qed

lemma scan_step_here:
  assumes i: "i + 4 < length (bytes M)" and L: "length (bytes M) < 2 ^ 63"
    and c: "bytes M ! i = smagic0 K"
  shows "accepted K M i \<Longrightarrow>
         scan_loop (Suc fuel) K M fname debug (base M) (base M + of_nat (length (bytes M)))
           (base M + of_nat i) so = Inr (Some (base M + of_nat i), so)"
    and "rejected K M i \<Longrightarrow>
         scan_loop (Suc fuel) K M fname debug (base M) (base M + of_nat (length (bytes M)))
           (base M + of_nat i) so =
         scan_loop fuel K M fname debug (base M) (base M + of_nat (length (bytes M)))
           (base M + of_nat (Suc i)) (so @ skip_line K M fname debug i)"
proof -
  have n: "unat (base M + of_nat (length (bytes M)) - (base M + of_nat i) - 4)
             = Suc (length (bytes M) - Suc i - 4)"
    using i L scan_n [of i "length (bytes M)" "base M"] by simp
  have m: "memchr M (base M + of_nat i) (smagic0 K) (Suc (length (bytes M) - Suc i - 4))
             = Inr (Some (base M + of_nat i))"
    using i L c by (intro memchr_here) simp_all
  have off: "unat (of_nat i :: addr) = i"
    using i L unat_of_nat64 [of i] by simp
  have next_q: "base M + of_nat i + 1 = base M + of_nat (Suc i)"
    by simp
  {
    assume "accepted K M i"
    then have "magic_at K M i" and "header_ok K M i = Some True"
      by (simp_all add: accepted_def)
    then have "hdr M (base M + of_nat i) (o_magic K) = Inr (FDT_MAGIC K)"
      and "plausible K M (base M + of_nat (length (bytes M))) (base M + of_nat i) = Inr True"
      using plausible_header_ok [of K M i True] i L by (simp_all add: magic_at_def)
    then show "scan_loop (Suc fuel) K M fname debug (base M)
                 (base M + of_nat (length (bytes M))) (base M + of_nat i) so
               = Inr (Some (base M + of_nat i), so)"
      unfolding scan_loop.simps n m by simp
  }
  {
    assume "rejected K M i"
    then consider (a) "not_magic_at K M i"
      | (b) "magic_at K M i" "header_ok K M i = Some False"
      by (auto simp: rejected_def)
    then show "scan_loop (Suc fuel) K M fname debug (base M)
                 (base M + of_nat (length (bytes M))) (base M + of_nat i) so =
               scan_loop fuel K M fname debug (base M) (base M + of_nat (length (bytes M)))
                 (base M + of_nat (Suc i)) (so @ skip_line K M fname debug i)"
    proof cases
      case a
      then obtain m where "hdr M (base M + of_nat i) (o_magic K) = Inr m" "m \<noteq> FDT_MAGIC K"
        by (auto simp: not_magic_at_def split: sum.splits)
      then show ?thesis
        unfolding scan_loop.simps n m
        by (simp add: next_q skip_line_def magic_at_def)
    next
      case b
      then have "hdr M (base M + of_nat i) (o_magic K) = Inr (FDT_MAGIC K)"
        and "plausible K M (base M + of_nat (length (bytes M))) (base M + of_nat i) = Inr False"
        using plausible_header_ok [of K M i False] i L by (simp_all add: magic_at_def)
      then show ?thesis
        unfolding scan_loop.simps n m
        using b c by (simp add: next_q skip_line_def off)
    qed
  }
qed

lemma skipped_empty: "skipped K M fname debug i i = []"
  by (simp add: skipped_def)

lemma skipped_step:
  "i < j \<Longrightarrow> skipped K M fname debug i j
     = skip_line K M fname debug i @ skipped K M fname debug (Suc i) j"
  by (simp add: skipped_def upt_conv_Cons)

lemma skip_line_other: "bytes M ! k \<noteq> smagic0 K \<Longrightarrow> skip_line K M fname debug k = []"
  by (simp add: skip_line_def)

lemma scan_finds:
  assumes L: "length (bytes M) < 2 ^ 63"
    and j: "j + 4 < length (bytes M)"
    and c: "bytes M ! j = smagic0 K"
    and acc: "accepted K M j"
  shows "\<lbrakk>i \<le> j; j - i < fuel;
          \<forall>k. i \<le> k \<and> k < j \<and> bytes M ! k = smagic0 K \<longrightarrow> rejected K M k\<rbrakk> \<Longrightarrow>
         scan_loop fuel K M fname debug (base M) (base M + of_nat (length (bytes M)))
           (base M + of_nat i) so
         = Inr (Some (base M + of_nat j), so @ skipped K M fname debug i j)"
proof (induction "j - i" arbitrary: i fuel so)
  case 0
  then have "i = j"
    by simp
  moreover from 0 obtain f where "fuel = Suc f"
    by (cases fuel) auto
  ultimately show ?case
    using scan_step_here(1) [OF j L c acc] by (simp add: skipped_empty del: scan_loop.simps)
next
  case (Suc n)
  then have i: "i < j" "i + 4 < length (bytes M)" and n: "n = j - Suc i"
    using j by simp_all
  from Suc.prems obtain f where fuel: "fuel = Suc f" and f: "j - Suc i < f"
    using Suc.hyps(2) by (cases fuel) auto
  have later: "\<forall>k. Suc i \<le> k \<and> k < j \<and> bytes M ! k = smagic0 K \<longrightarrow> rejected K M k"
    using Suc.prems(3) by simp
  show ?case
  proof (cases "bytes M ! i = smagic0 K")
    case True
    then have "rejected K M i"
      using Suc.prems(3) i by simp
    then have "scan_loop (Suc f) K M fname debug (base M) (base M + of_nat (length (bytes M)))
                 (base M + of_nat i) so =
               scan_loop f K M fname debug (base M) (base M + of_nat (length (bytes M)))
                 (base M + of_nat (Suc i)) (so @ skip_line K M fname debug i)"
      using scan_step_here(2) [OF i(2) L True] by simp
    moreover have "scan_loop f K M fname debug (base M) (base M + of_nat (length (bytes M)))
                 (base M + of_nat (Suc i)) (so @ skip_line K M fname debug i)
               = Inr (Some (base M + of_nat j),
                      (so @ skip_line K M fname debug i) @ skipped K M fname debug (Suc i) j)"
      using Suc.hyps(1) [OF n _ f later] i by simp
    ultimately show ?thesis
      using skipped_step [OF i(1)] by (simp add: fuel del: scan_loop.simps)
  next
    case False
    then have "scan_loop (Suc f) K M fname debug (base M) (base M + of_nat (length (bytes M)))
                 (base M + of_nat i) so =
               scan_loop (Suc f) K M fname debug (base M) (base M + of_nat (length (bytes M)))
                 (base M + of_nat (Suc i)) so"
      using scan_step_skip [OF i(2) L] by simp
    moreover have "scan_loop (Suc f) K M fname debug (base M)
                 (base M + of_nat (length (bytes M))) (base M + of_nat (Suc i)) so
               = Inr (Some (base M + of_nat j), so @ skipped K M fname debug (Suc i) j)"
      using Suc.hyps(1) [OF n _ _ later, of "Suc f"] i f by simp
    ultimately show ?thesis
      using skipped_step [OF i(1)] skip_line_other [OF False]
      by (simp add: fuel del: scan_loop.simps)
  qed
qed

lemma scan_fails:
  assumes L: "length (bytes M) < 2 ^ 63"
  shows "\<lbrakk>i + 4 \<le> length (bytes M); length (bytes M) - 4 - i < fuel;
          \<forall>k. i \<le> k \<and> k + 4 < length (bytes M) \<and> bytes M ! k = smagic0 K
               \<longrightarrow> rejected K M k\<rbrakk> \<Longrightarrow>
         scan_loop fuel K M fname debug (base M) (base M + of_nat (length (bytes M)))
           (base M + of_nat i) so
         = Inr (None, so @ skipped K M fname debug i (length (bytes M) - 4))"
proof (induction "length (bytes M) - 4 - i" arbitrary: i fuel so)
  case 0
  then have "i + 4 = length (bytes M)"
    by simp
  moreover from 0 obtain f where "fuel = Suc f"
    by (cases fuel) auto
  moreover have "length (bytes M) - 4 = i"
    using calculation by simp
  ultimately show ?case
    using scan_step_end [OF _ L, of i] by (simp add: skipped_empty del: scan_loop.simps)
next
  case (Suc n)
  then have i: "i + 4 < length (bytes M)" "i < length (bytes M) - 4"
    and n: "n = length (bytes M) - 4 - Suc i"
    by simp_all
  from Suc.prems obtain f where fuel: "fuel = Suc f" and f: "length (bytes M) - 4 - Suc i < f"
    using Suc.hyps(2) by (cases fuel) auto
  have later: "\<forall>k. Suc i \<le> k \<and> k + 4 < length (bytes M) \<and> bytes M ! k = smagic0 K
                 \<longrightarrow> rejected K M k"
    using Suc.prems(3) by simp
  have i': "Suc i + 4 \<le> length (bytes M)"
    using i by simp
  show ?case
  proof (cases "bytes M ! i = smagic0 K")
    case True
    then have "rejected K M i"
      using Suc.prems(3) i by simp
    then have "scan_loop (Suc f) K M fname debug (base M) (base M + of_nat (length (bytes M)))
                 (base M + of_nat i) so =
               scan_loop f K M fname debug (base M) (base M + of_nat (length (bytes M)))
                 (base M + of_nat (Suc i)) (so @ skip_line K M fname debug i)"
      using scan_step_here(2) [OF i(1) L True] by simp
    moreover have "scan_loop f K M fname debug (base M) (base M + of_nat (length (bytes M)))
                 (base M + of_nat (Suc i)) (so @ skip_line K M fname debug i)
               = Inr (None, (so @ skip_line K M fname debug i)
                        @ skipped K M fname debug (Suc i) (length (bytes M) - 4))"
      using Suc.hyps(1) [OF n i' f later] by simp
    ultimately show ?thesis
      using skipped_step [OF i(2)] by (simp add: fuel del: scan_loop.simps)
  next
    case False
    then have "scan_loop (Suc f) K M fname debug (base M) (base M + of_nat (length (bytes M)))
                 (base M + of_nat i) so =
               scan_loop (Suc f) K M fname debug (base M) (base M + of_nat (length (bytes M)))
                 (base M + of_nat (Suc i)) so"
      using scan_step_skip [OF i(1) L] by simp
    moreover have "scan_loop (Suc f) K M fname debug (base M)
                 (base M + of_nat (length (bytes M))) (base M + of_nat (Suc i)) so
               = Inr (None, so @ skipped K M fname debug (Suc i) (length (bytes M) - 4))"
      using Suc.hyps(1) [OF n i' _ later, of "Suc f"] f by simp
    ultimately show ?thesis
      using skipped_step [OF i(2)] skip_line_other [OF False]
      by (simp add: fuel del: scan_loop.simps)
  qed
qed

lemma take4:
  assumes "i + 4 \<le> length xs"
  shows "take 4 (drop i xs) = [xs ! i, xs ! (i + 1), xs ! (i + 2), xs ! (i + 3)]"
proof -
  have "take (Suc (Suc (Suc (Suc 0)))) (drop i xs)
          = [xs ! i, xs ! (i + 1), xs ! (i + 2), xs ! (i + 3)]"
    using assms by (simp add: take_Suc_conv_app_nth add.commute eval_nat_numeral)
  then show ?thesis
    by (simp add: numeral_eq_Suc)
qed

lemma magic_first_byte:
  assumes m: "magic_at K M k" and z: "o_magic K = 0" and k: "k < 2 ^ 64"
  shows "bytes M ! k = smagic0 K" and "k + 4 \<le> length (bytes M)"
proof -
  from m have r: "be32 M (base M + of_nat k) = Inr (FDT_MAGIC K)"
    by (simp add: magic_at_def hdr_def z)
  have u: "unat (base M + of_nat k - base M) = k"
    using k unat_of_nat64 [of k] by simp
  from r u show len: "k + 4 \<le> length (bytes M)"
    by (auto simp: be32_def rd_bytes_def Let_def bind_res_eq_Inr split: if_splits)
  from r u len have "FDT_MAGIC K = be_val (take 4 (drop k (bytes M)))"
    by (auto simp: be32_def rd_bytes_def Let_def bind_res_eq_Inr split: if_splits)
  then show "bytes M ! k = smagic0 K"
    using take4 [OF len] be_val4_top by (simp add: smagic0_def)
qed

lemma accepted_not_rejected: "accepted K M k \<Longrightarrow> \<not> rejected K M k"
  by (auto simp: accepted_def rejected_def not_magic_at_def magic_at_def)


section \<open>The walk after a number of rounds\<close>

text \<open>A round that goes round again writes nothing to standard error.\<close>

lemma walk_step_again_err:
  "walk_step K render M blob p_strings version debug st = Inr (True, st') \<Longrightarrow> err st' = err st"
  by (auto simp: walk_step_def Let_def bind_res_eq_Inr split: if_splits)

lemma rounds_err:
  "rounds k K render M blob p_strings version debug st = Some st' \<Longrightarrow> err st' = err st"
proof (induction k arbitrary: st)
  case 0
  then show ?case by simp
next
  case (Suc k)
  then show ?case
    by (auto split: sum.splits prod.splits bool.splits if_splits dest: walk_step_again_err)
qed

text \<open>After \<open>k\<close> rounds that went round again the loop is at the state they lead to,
  with \<open>k\<close> rounds of fuel used.\<close>

lemma walk_rounds:
  "rounds k K render M blob p_strings version debug st = Some st' \<Longrightarrow>
   walk (k + n) K render M blob p_strings version debug st =
   walk n K render M blob p_strings version debug st'"
proof (induction k arbitrary: st)
  case 0
  then show ?case by simp
next
  case (Suc k)
  then show ?case
    by (auto split: sum.splits prod.splits bool.splits if_splits)
qed

text \<open>
  The run of \<open>main\<close> on a file, up to a state of the walker: the blob is the whole
  buffer, or the one the scan found; the four header fields, the header summary and the
  reservation map are read; the walker starts at the structure block with depth 0 and
  an empty standard error, and \<open>k\<close> rounds lead to the state \<open>st\<close>. What the rest of
  the walk returns is what \<open>main\<close> returns, with the exit status 0.
\<close>

lemma main_after_rounds:
  assumes found: "scan \<Longrightarrow> scan_loop fuel K M fname debug (base M)
                     (base M + of_nat (length (bytes M))) (base M) [] = Inr (Some blob, skips)"
    and whole: "\<not> scan \<Longrightarrow> blob = base M"
    and rsv: "hdr M blob (o_off_mem_rsvmap K) = Inr off_rsv"
    and dt: "hdr M blob (o_off_dt_struct K) = Inr off_dt"
    and str: "hdr M blob (o_off_dt_strings K) = Inr off_str"
    and ver: "hdr M blob (o_version K) = Inr version"
    and summ: "header_summary K M blob = Inr summary"
    and map: "rsvmap_loop fuel M (blob + ucast off_rsv) 0 (''/dts-v1/;'' @ nl @ summary) = Inr out1"
    and reach: "rounds k K render M blob (blob + ucast off_str) version debug
                  \<lparr>p = blob + ucast off_dt, depth = 0, out = out1, err = []\<rparr> = Some st"
    and fuel: "fuel = k + n"
  shows "main fuel K render fname (IsFile (Some M)) debug scan =
           bind_res (walk n K render M blob (blob + ucast off_str) version debug st) (\<lambda>st'.
             Inr ((if scan then skips @ fname @ '': found fdt at offset ''
                                 @ fmt_alt_x (unat (blob - base M)) @ nl else [])
                    @ out st', err st', 0))"
proof -
  have d: "dump_blob fuel K render M blob debug =
             bind_res (walk n K render M blob (blob + ucast off_str) version debug st) (\<lambda>st'.
               Inr (out st', err st'))"
    using rsv dt str ver summ map walk_rounds [OF reach, of n] fuel
    by (simp add: dump_blob_def)
  show ?thesis
  proof (cases scan)
    case True
    with found d show ?thesis
      by (cases "walk n K render M blob (blob + ucast off_str) version debug st")
         (simp_all add: main_def)
  next
    case False
    with whole d show ?thesis
      by (cases "walk n K render M blob (blob + ucast off_str) version debug st")
         (simp_all add: main_def)
  qed
qed

text \<open>The loop is left at a tag outside the known set, and at \<^verbatim>\<open>FDT_END\<close>.\<close>

lemma walk_unknown_tag:
  assumes tag: "be32 M (p st) = Inr tag"
    and unknown: "tag \<noteq> FDT_END K" "tag \<noteq> FDT_BEGIN_NODE K" "tag \<noteq> FDT_END_NODE K"
                 "tag \<noteq> FDT_NOP K" "tag \<noteq> FDT_PROP K"
  shows "walk (Suc n) K render M blob p_strings version debug st =
           Inr (st\<lparr>p := p st + 4,
                    out := out st
                      @ dumpf debug (fmt_0x 4 (unat (p st - blob)) @ '': tag: 0x''
                          @ fmt_0x 8 (unat tag) @ '' (FDT_???)'' @ nl),
                    err := err st @ pad (depth st * shift) @ '' ** Unknown tag 0x''
                             @ fmt_0x 8 (unat tag) @ nl\<rparr>)"
  using assms by (simp add: walk_step_def Let_def tagname_def)

lemma walk_end_tag:
  assumes "be32 M (p st) = Inr (FDT_END K)"
  shows "walk (Suc n) K render M blob p_strings version debug st = Inr (st\<lparr>p := p st + 4\<rparr>)"
  using assms by (simp add: walk_step_def)

section \<open>A file that ends before the size that stat reported\<close>

text \<open>When the file has fewer bytes left than the loop still asks for, \<^verbatim>\<open>read\<close>
  delivers them and then returns 0 in every round: no amount of fuel is enough.\<close>

lemma read_loop_starves:
  "length bs - pos < left \<Longrightarrow>
   read_loop fuel new_path so (Some bs) pos left buf = Inl OutOfFuel"
proof (induction fuel arbitrary: pos left buf)
  case 0
  then show ?case by simp
next
  case (Suc fuel)
  have "length bs - (pos + (length bs - pos)) < left - (length bs - pos)"
    using Suc.prems by simp
  from Suc.IH [OF this] Suc.prems show ?case
    by (simp add: Let_def min_def)
qed

lemma dump_file_starves:
  assumes "st_size f = Some sz" and "can_open f" and "data f = Some bs"
    and "length bs < min sz 4096"
  shows "dump_file fuel render path dep name f so = Inl OutOfFuel"
  using assms read_loop_starves [of bs 0 "min sz 4096" fuel]
  by (auto simp: dump_file_def Let_def buf_alloc_def min_def)
section \<open>The structure block walker\<close>

text \<open>
  A round of the walker that reads the tag \<^verbatim>\<open>FDT_BEGIN_NODE\<close>: the name \<open>s\<close> is the
  bytes right after the tag up to the first NUL (no NUL in \<open>s\<close>, and the length of
  \<open>s\<close> plus one bytes after the tag are \<open>s\<close> and a NUL); the cursor becomes the
  address after the name and its terminator rounded up to a multiple of 4 as an address
  (its two low bits are clear and it is at most 3 bytes further), so its offset from the
  start of the blob is a multiple of 4 exactly when the address of the blob is one; an
  empty name is printed as \<open>/\<close>; the line with the opening brace is indented by the
  depth before the increment times \<^verbatim>\<open>shift\<close>; the depth grows by one; nothing is
  written to standard error.
\<close>

lemma begin_node_step:
  assumes tag: "be32 M (p st) = Inr (FDT_BEGIN_NODE K)"
    and ne: "FDT_BEGIN_NODE K \<noteq> FDT_END K"
    and name: "cstr M (p st + 4) = Inr s"
  shows "walk_step K render M blob p_strings version debug st =
           Inr (True, st\<lparr>p := PALIGN (p st + 4 + of_nat (length s) + 1) 4,
                          depth := depth st + 1,
                          out := out st
                            @ dumpf debug (fmt_0x 4 (unat (p st - blob)) @ '': tag: 0x''
                                @ fmt_0x 8 (unat (FDT_BEGIN_NODE K)) @ '' (''
                                @ tagname K (FDT_BEGIN_NODE K) @ '')'' @ nl)
                            @ pad (depth st * shift)
                            @ (if s = [] then ''/'' else chars s) @ '' {'' @ nl\<rparr>)
         \<and> 0 \<notin> set s
         \<and> rd_bytes M (p st + 4) (Suc (length s)) = Inr (s @ [0])
         \<and> PALIGN (p st + 4 + of_nat (length s) + 1) 4 AND 3 = 0
         \<and> PALIGN (p st + 4 + of_nat (length s) + 1) 4 - (p st + 4 + of_nat (length s) + 1) \<le> 3
         \<and> ((PALIGN (p st + 4 + of_nat (length s) + 1) 4 - blob) AND 3 = 0) = (blob AND 3 = 0)"
  using assms cstr_Inr [OF name]
    aligned_offset_iff4 [of "ALIGN (p st + 4 + of_nat (length s) + 1) 4" blob]
  by (simp add: walk_step_def Let_def PALIGN_def ALIGN_4_low ALIGN_4_near)

text \<open>
  C7 fails for a blob that the scan finds at an address that is no multiple of 4: the
  cursor is rounded up as an address, not as a position in the blob. \<open>ex_acme_at_1\<close>
  holds the example blob of the specification at offset 1 of the file, so the blob is at
  the address 0x1001. The round that reads \<^verbatim>\<open>FDT_BEGIN_NODE\<close> at offset 0x48 of the
  blob reads the empty name at 0x4c; the next 4-byte boundary past the name and its
  terminator is offset 0x50 of the blob, where the tag \<^verbatim>\<open>FDT_PROP\<close> is, but the cursor
  becomes the address 0x1050, which is offset 0x4f of the blob. The walker reads the
  tag 0 there, writes the message about an unknown tag and stops after the line
  \<^verbatim>\<open>/ {\<close>; the exit status is 0. The same blob at the start of a file, decoded
  without the scan, is decoded to its end.
\<close>

theorem begin_node_cursor_in_shifted_blob:
  "main 10 fdt_h hex_render ''f'' (IsFile (Some ex_acme_at_1)) True True =
     Inr (''f: found fdt at offset 0x1'' @ nl @ ''/dts-v1/;'' @ nl
          @ ''// magic:'' @ tab @ tab @ ''0xd00dfeed'' @ nl
          @ ''// totalsize:'' @ tab @ tab @ ''0x7b (123)'' @ nl
          @ ''// off_dt_struct:'' @ tab @ ''0x48'' @ nl
          @ ''// off_dt_strings:'' @ tab @ ''0x70'' @ nl
          @ ''// off_mem_rsvmap:'' @ tab @ ''0x28'' @ nl
          @ ''// version:'' @ tab @ tab @ ''17'' @ nl
          @ ''// last_comp_version:'' @ tab @ ''16'' @ nl
          @ ''// boot_cpuid_phys:'' @ tab @ ''0x0'' @ nl
          @ ''// size_dt_strings:'' @ tab @ ''0xb'' @ nl
          @ ''// size_dt_struct:'' @ tab @ ''0x28'' @ nl @ nl
          @ ''/memreserve/ 0x1000 0x200;'' @ nl
          @ ''// 0048: tag: 0x00000001 (FDT_BEGIN_NODE)'' @ nl
          @ ''/ {'' @ nl
          @ ''// 004f: tag: 0x00000000 (FDT_???)'' @ nl,
          ''     ** Unknown tag 0x00000000'' @ nl, 0)
   \<and> walk_step fdt_h hex_render ex_acme_at_1 0x1001 0x1071 17 False
         \<lparr>p = 0x1049, depth = 0, out = [], err = []\<rparr>
       = Inr (True, \<lparr>p = 0x1050, depth = 1, out = ''/ {'' @ nl, err = []\<rparr>)
   \<and> (0x1050 :: addr) - 0x1001 = 0x4f
   \<and> be32 ex_acme_at_1 (0x1001 + 0x4f) = Inr 0
   \<and> be32 ex_acme_at_1 (0x1001 + 0x50) = Inr (FDT_PROP fdt_h)
   \<and> main 10 fdt_h hex_render ''f'' (IsFile (Some ex_acme)) True False =
     Inr (''/dts-v1/;'' @ nl
          @ ''// magic:'' @ tab @ tab @ ''0xd00dfeed'' @ nl
          @ ''// totalsize:'' @ tab @ tab @ ''0x7b (123)'' @ nl
          @ ''// off_dt_struct:'' @ tab @ ''0x48'' @ nl
          @ ''// off_dt_strings:'' @ tab @ ''0x70'' @ nl
          @ ''// off_mem_rsvmap:'' @ tab @ ''0x28'' @ nl
          @ ''// version:'' @ tab @ tab @ ''17'' @ nl
          @ ''// last_comp_version:'' @ tab @ ''16'' @ nl
          @ ''// boot_cpuid_phys:'' @ tab @ ''0x0'' @ nl
          @ ''// size_dt_strings:'' @ tab @ ''0xb'' @ nl
          @ ''// size_dt_struct:'' @ tab @ ''0x28'' @ nl @ nl
          @ ''/memreserve/ 0x1000 0x200;'' @ nl
          @ ''// 0048: tag: 0x00000001 (FDT_BEGIN_NODE)'' @ nl
          @ ''/ {'' @ nl
          @ ''// 0050: tag: 0x00000003 (FDT_PROP)'' @ nl
          @ ''// 0070: string: compatible'' @ nl
          @ ''// 005c: value'' @ nl
          @ ''    compatible = [61636d652c626f61726400];'' @ nl
          @ ''// 0068: tag: 0x00000002 (FDT_END_NODE)'' @ nl
          @ ''};'' @ nl, [], 0)"
  by (simp add: run_simps hex_render_def ex_acme_at_1_def ex_acme_def cong: bind_res_weak_cong)

text \<open>
  Where the value of a property starts. When the header version is below 16 and the
  length, a signed 32-bit \<^verbatim>\<open>int\<close>, is at least 8, it is the cursor after the length and
  name-offset cells rounded up to a multiple of 8 as an address (its three low bits are
  clear, and it is at most 7 bytes further); its offset from the start of the blob is a
  multiple of 8 exactly when the address of the blob is one. When the version is 16 or
  more, or the length is below 8, the value starts right after the name-offset cell.
\<close>

lemma value_start_offset:
  "(version < 16 \<and> 8 \<le>s sz \<longrightarrow>
      value_start version sz q = PALIGN q 8 \<and> value_start version sz q AND 7 = 0
      \<and> value_start version sz q - q \<le> 7
      \<and> ((value_start version sz q - blob) AND 7 = 0) = (blob AND 7 = 0))
   \<and> (16 \<le> version \<or> sz <s 8 \<longrightarrow> value_start version sz q = q)"
  using aligned_offset_iff [of "ALIGN q 8" blob]
  by (auto simp: value_start_def PALIGN_def ALIGN_8_low ALIGN_8_near word_sless_alt word_sle_eq)

text \<open>
  A property whose length cell is negative as an \<^verbatim>\<open>int\<close>. In \<open>ex_neglen\<close> the
  length is -8 and the version is 2: the comparison with 8 is signed, so the cursor is
  not rounded up and the value pointer is offset 0x4c of the blob; the line of the
  property is printed, with the renderer called for the length -8; the cursor moves
  back by 8 bytes to the length cell, which is read as the next tag, and the run ends
  with the message about an unknown tag and the exit status 0.
\<close>

lemma negative_length_example:
  "main 10 fdt_h hex_render ''f'' (IsFile (Some ex_neglen)) True False =
     Inr (''/dts-v1/;'' @ nl
          @ ''// magic:'' @ tab @ tab @ ''0xd00dfeed'' @ nl
          @ ''// totalsize:'' @ tab @ tab @ ''0x57 (87)'' @ nl
          @ ''// off_dt_struct:'' @ tab @ ''0x38'' @ nl
          @ ''// off_dt_strings:'' @ tab @ ''0x54'' @ nl
          @ ''// off_mem_rsvmap:'' @ tab @ ''0x28'' @ nl
          @ ''// version:'' @ tab @ tab @ ''2'' @ nl
          @ ''// last_comp_version:'' @ tab @ ''2'' @ nl
          @ ''// boot_cpuid_phys:'' @ tab @ ''0x0'' @ nl @ nl
          @ ''// 0038: tag: 0x00000001 (FDT_BEGIN_NODE)'' @ nl
          @ ''/ {'' @ nl
          @ ''// 0040: tag: 0x00000003 (FDT_PROP)'' @ nl
          @ ''// 0054: string: ab'' @ nl
          @ ''// 004c: value'' @ nl
          @ ''    ab'' @ hex_render (- 8) [] @ '';'' @ nl
          @ ''// 0044: tag: 0xfffffff8 (FDT_???)'' @ nl,
          ''     ** Unknown tag 0xfffffff8'' @ nl, 0)
   \<and> be32 ex_neglen (0x1000 + 0x44) = Inr 0xfffffff8
   \<and> sint (0xfffffff8 :: u32) = - 8
   \<and> value_start 2 0xfffffff8 (0x1000 + 0x4c) = 0x1000 + 0x4c"
proof -
  have s: "sint (0xfffffff8 :: u32) = - 8"
    by code_simp
  show ?thesis
    by (simp add: run_simps s hex_render_def ex_neglen_def cong: bind_res_weak_cong)
qed

text \<open>
  C1 fails for a version 2 blob that the scan finds at an address that is no multiple of
  8. \<open>ex_v2\<close> is decoded as the claim says when it is the whole file: the 8 bytes of
  the property \<open>ab\<close> are taken from offset 0x50 of the blob, the next multiple of 8
  after the name-offset cell. \<open>ex_v2_at_4\<close> holds the same blob at offset 4 of the
  file, so the blob is at the address 0x1004: the cursor after the name-offset cell is
  the address 0x1050, a multiple of 8 already, and the value is taken from there, which
  is offset 0x4c of the blob and no multiple of 8. The line of the property shows the 4
  bytes of padding and the first half of the value, the next tag is read from the second
  half of the value, and the walk stops with the message about an unknown tag.
\<close>

theorem prop_value_in_shifted_blob:
  "main 10 fdt_h hex_render ''f'' (IsFile (Some ex_v2)) True False =
     Inr (''/dts-v1/;'' @ nl
          @ ''// magic:'' @ tab @ tab @ ''0xd00dfeed'' @ nl
          @ ''// totalsize:'' @ tab @ tab @ ''0x63 (99)'' @ nl
          @ ''// off_dt_struct:'' @ tab @ ''0x38'' @ nl
          @ ''// off_dt_strings:'' @ tab @ ''0x60'' @ nl
          @ ''// off_mem_rsvmap:'' @ tab @ ''0x28'' @ nl
          @ ''// version:'' @ tab @ tab @ ''2'' @ nl
          @ ''// last_comp_version:'' @ tab @ ''2'' @ nl
          @ ''// boot_cpuid_phys:'' @ tab @ ''0x0'' @ nl @ nl
          @ ''// 0038: tag: 0x00000001 (FDT_BEGIN_NODE)'' @ nl
          @ ''/ {'' @ nl
          @ ''// 0040: tag: 0x00000003 (FDT_PROP)'' @ nl
          @ ''// 0060: string: ab'' @ nl
          @ ''// 0050: value'' @ nl
          @ ''    ab = [0102030405060708];'' @ nl
          @ ''// 0058: tag: 0x00000002 (FDT_END_NODE)'' @ nl
          @ ''};'' @ nl, [], 0)
   \<and> main 10 fdt_h hex_render ''f'' (IsFile (Some ex_v2_at_4)) True True =
     Inr (''f: found fdt at offset 0x4'' @ nl @ ''/dts-v1/;'' @ nl
          @ ''// magic:'' @ tab @ tab @ ''0xd00dfeed'' @ nl
          @ ''// totalsize:'' @ tab @ tab @ ''0x63 (99)'' @ nl
          @ ''// off_dt_struct:'' @ tab @ ''0x38'' @ nl
          @ ''// off_dt_strings:'' @ tab @ ''0x60'' @ nl
          @ ''// off_mem_rsvmap:'' @ tab @ ''0x28'' @ nl
          @ ''// version:'' @ tab @ tab @ ''2'' @ nl
          @ ''// last_comp_version:'' @ tab @ ''2'' @ nl
          @ ''// boot_cpuid_phys:'' @ tab @ ''0x0'' @ nl @ nl
          @ ''// 0038: tag: 0x00000001 (FDT_BEGIN_NODE)'' @ nl
          @ ''/ {'' @ nl
          @ ''// 0040: tag: 0x00000003 (FDT_PROP)'' @ nl
          @ ''// 0060: string: ab'' @ nl
          @ ''// 004c: value'' @ nl
          @ ''    ab = [0000000001020304];'' @ nl
          @ ''// 0054: tag: 0x05060708 (FDT_???)'' @ nl,
          ''     ** Unknown tag 0x05060708'' @ nl, 0)
   \<and> hdr ex_v2_at_4 0x1004 (o_version fdt_h) = Inr 2
   \<and> be32 ex_v2_at_4 (0x1004 + 0x44) = Inr 8
   \<and> value_start 2 8 (0x1004 + 0x4c) - 0x1004 = 0x4c
   \<and> (0x4c :: addr) AND 7 = 4
   \<and> rd_bytes ex_v2_at_4 (0x1004 + 0x50) 8 = Inr [1, 2, 3, 4, 5, 6, 7, 8]"
  by (simp add: run_simps hex_render_def ex_v2_at_4_def ex_v2_def cong: bind_res_weak_cong)

text \<open>
  C3, as the code has it. The walker has no check of the balance. A round that reads
  \<^verbatim>\<open>FDT_END_NODE\<close> decrements the depth whatever it is (from 0 it becomes -1), prints
  the closing brace and goes round again. And whenever the walk reaches the tag
  \<^verbatim>\<open>FDT_END\<close> (after any number \<open>k\<close> of rounds, each of which read a known tag
  inside the buffer and went round again), the run of \<open>main\<close> ends normally there,
  whatever the depth is at that point and whatever it has been on the way: what was
  printed up to that point is the standard output, nothing is written to standard error
  and the exit status is 0. This holds for the blob that is the whole file and for the
  blob that the scan found.
\<close>

theorem end_at_any_depth:
  assumes found: "scan \<Longrightarrow> scan_loop fuel K M fname debug (base M)
                     (base M + of_nat (length (bytes M))) (base M) [] = Inr (Some blob, skips)"
    and whole: "\<not> scan \<Longrightarrow> blob = base M"
    and rsv: "hdr M blob (o_off_mem_rsvmap K) = Inr off_rsv"
    and dt: "hdr M blob (o_off_dt_struct K) = Inr off_dt"
    and str: "hdr M blob (o_off_dt_strings K) = Inr off_str"
    and ver: "hdr M blob (o_version K) = Inr version"
    and summ: "header_summary K M blob = Inr summary"
    and map: "rsvmap_loop fuel M (blob + ucast off_rsv) 0 (''/dts-v1/;'' @ nl @ summary) = Inr out1"
    and reach: "rounds k K render M blob (blob + ucast off_str) version debug
                  \<lparr>p = blob + ucast off_dt, depth = 0, out = out1, err = []\<rparr> = Some st"
    and e: "be32 M (p st) = Inr (FDT_END K)"
    and fuel: "k < fuel"
    and en: "be32 M (p st1) = Inr (FDT_END_NODE K)"
    and ne: "FDT_END_NODE K \<noteq> FDT_END K" "FDT_END_NODE K \<noteq> FDT_BEGIN_NODE K"
  shows "walk_step K render M blob (blob + ucast off_str) version debug st1 =
           Inr (True, st1\<lparr>p := p st1 + 4, depth := depth st1 - 1,
                  out := out st1
                    @ dumpf debug (fmt_0x 4 (unat (p st1 - blob)) @ '': tag: 0x''
                        @ fmt_0x 8 (unat (FDT_END_NODE K)) @ '' (''
                        @ tagname K (FDT_END_NODE K) @ '')'' @ nl)
                    @ pad ((depth st1 - 1) * shift) @ ''};'' @ nl\<rparr>)
       \<and> main fuel K render fname (IsFile (Some M)) debug scan =
           Inr ((if scan then skips @ fname @ '': found fdt at offset ''
                               @ fmt_alt_x (unat (blob - base M)) @ nl else [])
                  @ out st, [], 0)"
proof -
  have quiet: "err st = []"
    using rounds_err [OF reach] by simp
  define m where "m = fuel - Suc k"
  have m: "fuel = k + Suc m"
    using fuel by (simp add: m_def)
  have run: "main fuel K render fname (IsFile (Some M)) debug scan =
           bind_res (walk (Suc m) K render M blob (blob + ucast off_str) version debug st) (\<lambda>st'.
             Inr ((if scan then skips @ fname @ '': found fdt at offset ''
                                 @ fmt_alt_x (unat (blob - base M)) @ nl else [])
                    @ out st', err st', 0))"
    by (rule main_after_rounds [OF found whole rsv dt str ver summ map reach m])
  have step: "walk_step K render M blob (blob + ucast off_str) version debug st1 =
           Inr (True, st1\<lparr>p := p st1 + 4, depth := depth st1 - 1,
                  out := out st1
                    @ dumpf debug (fmt_0x 4 (unat (p st1 - blob)) @ '': tag: 0x''
                        @ fmt_0x 8 (unat (FDT_END_NODE K)) @ '' (''
                        @ tagname K (FDT_END_NODE K) @ '')'' @ nl)
                    @ pad ((depth st1 - 1) * shift) @ ''};'' @ nl\<rparr>)"
    using en ne by (simp add: walk_step_def Let_def)
  show ?thesis
    unfolding run walk_end_tag [OF e] step using quiet by simp
qed

theorem end_at_any_depth_witness:
  "walk_step fdt_h hex_render ex_unbalanced 0x1000 0x1040 17 True
     \<lparr>p = 0x1038, depth = 0, out = [], err = []\<rparr>
   = Inr (True, \<lparr>p = 0x103c, depth = - 1,
                 out = ''// 0038: tag: 0x00000002 (FDT_END_NODE)'' @ nl @ ''    };'' @ nl,
                 err = []\<rparr>)
   \<and> main 10 fdt_h hex_render ''f'' (IsFile (Some ex_unbalanced)) True False =
     Inr (''/dts-v1/;'' @ nl
          @ ''// magic:'' @ tab @ tab @ ''0xd00dfeed'' @ nl
          @ ''// totalsize:'' @ tab @ tab @ ''0x40 (64)'' @ nl
          @ ''// off_dt_struct:'' @ tab @ ''0x38'' @ nl
          @ ''// off_dt_strings:'' @ tab @ ''0x40'' @ nl
          @ ''// off_mem_rsvmap:'' @ tab @ ''0x28'' @ nl
          @ ''// version:'' @ tab @ tab @ ''17'' @ nl
          @ ''// last_comp_version:'' @ tab @ ''16'' @ nl
          @ ''// boot_cpuid_phys:'' @ tab @ ''0x0'' @ nl
          @ ''// size_dt_strings:'' @ tab @ ''0x0'' @ nl
          @ ''// size_dt_struct:'' @ tab @ ''0x8'' @ nl @ nl
          @ ''// 0038: tag: 0x00000002 (FDT_END_NODE)'' @ nl
          @ ''    };'' @ nl, [], 0)"
proof -
  let ?summary = "''// magic:'' @ tab @ tab @ ''0xd00dfeed'' @ nl
          @ ''// totalsize:'' @ tab @ tab @ ''0x40 (64)'' @ nl
          @ ''// off_dt_struct:'' @ tab @ ''0x38'' @ nl
          @ ''// off_dt_strings:'' @ tab @ ''0x40'' @ nl
          @ ''// off_mem_rsvmap:'' @ tab @ ''0x28'' @ nl
          @ ''// version:'' @ tab @ tab @ ''17'' @ nl
          @ ''// last_comp_version:'' @ tab @ ''16'' @ nl
          @ ''// boot_cpuid_phys:'' @ tab @ ''0x0'' @ nl
          @ ''// size_dt_strings:'' @ tab @ ''0x0'' @ nl
          @ ''// size_dt_struct:'' @ tab @ ''0x8'' @ nl @ nl"
  let ?st1 = "\<lparr>p = 0x1038 :: addr, depth = 0, out = [], err = []\<rparr>"
  let ?st = "\<lparr>p = 0x103c :: addr, depth = - 1,
              out = ''/dts-v1/;'' @ nl @ ?summary
                    @ ''// 0038: tag: 0x00000002 (FDT_END_NODE)'' @ nl @ ''    };'' @ nl,
              err = []\<rparr>"
  have found: "False \<Longrightarrow> scan_loop 10 fdt_h ex_unbalanced ''f'' True (base ex_unbalanced)
                 (base ex_unbalanced + of_nat (length (bytes ex_unbalanced)))
                 (base ex_unbalanced) [] = Inr (Some 0x1000, [])"
    by simp
  have whole: "\<not> False \<Longrightarrow> (0x1000 :: addr) = base ex_unbalanced"
    by (simp add: ex_unbalanced_def)
  have rsv: "hdr ex_unbalanced 0x1000 (o_off_mem_rsvmap fdt_h) = Inr 0x28"
    and dt: "hdr ex_unbalanced 0x1000 (o_off_dt_struct fdt_h) = Inr 0x38"
    and str: "hdr ex_unbalanced 0x1000 (o_off_dt_strings fdt_h) = Inr 0x40"
    and ver: "hdr ex_unbalanced 0x1000 (o_version fdt_h) = Inr 17"
    by (simp_all add: run_simps ex_unbalanced_def)
  have summ: "header_summary fdt_h ex_unbalanced 0x1000 = Inr ?summary"
    by (simp add: run_simps ex_unbalanced_def cong: bind_res_weak_cong)
  have map: "rsvmap_loop 10 ex_unbalanced (0x1000 + ucast (0x28 :: u32)) 0
               (''/dts-v1/;'' @ nl @ ?summary) = Inr (''/dts-v1/;'' @ nl @ ?summary)"
    by (simp add: run_simps ex_unbalanced_def cong: bind_res_weak_cong)
  have reach: "rounds (Suc 0) fdt_h hex_render ex_unbalanced 0x1000
                 (0x1000 + ucast (0x40 :: u32)) 17 True
                 \<lparr>p = 0x1000 + ucast (0x38 :: u32), depth = 0,
                   out = ''/dts-v1/;'' @ nl @ ?summary, err = []\<rparr> = Some ?st"
    by (simp add: run_simps ex_unbalanced_def cong: bind_res_weak_cong)
  have e: "be32 ex_unbalanced (p ?st) = Inr (FDT_END fdt_h)"
    by (simp add: run_simps ex_unbalanced_def)
  have fuel: "Suc 0 < 10"
    by simp
  have en: "be32 ex_unbalanced (p ?st1) = Inr (FDT_END_NODE fdt_h)"
    by (simp add: run_simps ex_unbalanced_def)
  have ne: "FDT_END_NODE fdt_h \<noteq> FDT_END fdt_h" "FDT_END_NODE fdt_h \<noteq> FDT_BEGIN_NODE fdt_h"
    by (simp_all add: fdt_h_def)
  from end_at_any_depth [OF found whole rsv dt str ver summ map reach e fuel en ne]
  show ?thesis
    by (simp add: dumpf_def pad_def shift_def nl_def fmt_0x_def hex.simps hexdigit_def
          tagname_def fdt_h_def replicate_numeral_unfold)
qed

text \<open>
  The claim as the specification states it fails: the structure block of
  \<open>ex_unbalanced\<close> has an \<^verbatim>\<open>FDT_END_NODE\<close> with no \<^verbatim>\<open>FDT_BEGIN_NODE\<close> before it and
  reaches \<^verbatim>\<open>FDT_END\<close> at depth -1, and the run completes: the closing brace is
  printed, nothing is written to standard error and the exit status is 0.
\<close>

theorem unbalanced_blob_completes:
  "main 10 fdt_h hex_render ''f'' (IsFile (Some ex_unbalanced)) False False =
     Inr (''/dts-v1/;'' @ nl
          @ ''// magic:'' @ tab @ tab @ ''0xd00dfeed'' @ nl
          @ ''// totalsize:'' @ tab @ tab @ ''0x40 (64)'' @ nl
          @ ''// off_dt_struct:'' @ tab @ ''0x38'' @ nl
          @ ''// off_dt_strings:'' @ tab @ ''0x40'' @ nl
          @ ''// off_mem_rsvmap:'' @ tab @ ''0x28'' @ nl
          @ ''// version:'' @ tab @ tab @ ''17'' @ nl
          @ ''// last_comp_version:'' @ tab @ ''16'' @ nl
          @ ''// boot_cpuid_phys:'' @ tab @ ''0x0'' @ nl
          @ ''// size_dt_strings:'' @ tab @ ''0x0'' @ nl
          @ ''// size_dt_struct:'' @ tab @ ''0x8'' @ nl @ nl
          @ ''    };'' @ nl, [], 0)"
  by (simp add: run_simps hex_render_def ex_unbalanced_def cong: bind_res_weak_cong)

text \<open>
  C2, as the code has it. Whenever the walker reads a tag outside the known set (after
  any number \<open>k\<close> of rounds that went round again), it leaves the loop at once, whatever
  follows in the structure block and whatever fuel is left: it writes one line to
  standard error, made of the indentation of the current depth and the tag in
  hexadecimal (no offset; in diagnostic mode the line of the tag on standard output
  names the offset), and nothing else. The walker returns, and the run of \<open>main\<close> on
  this file returns with what was printed up to the tag as its standard output, that one
  line as its standard error, and the exit status 0. This holds for the blob that is
  the whole file and for the blob that the scan found.
\<close>

theorem unknown_tag_stops:
  assumes found: "scan \<Longrightarrow> scan_loop fuel K M fname debug (base M)
                     (base M + of_nat (length (bytes M))) (base M) [] = Inr (Some blob, skips)"
    and whole: "\<not> scan \<Longrightarrow> blob = base M"
    and rsv: "hdr M blob (o_off_mem_rsvmap K) = Inr off_rsv"
    and dt: "hdr M blob (o_off_dt_struct K) = Inr off_dt"
    and str: "hdr M blob (o_off_dt_strings K) = Inr off_str"
    and ver: "hdr M blob (o_version K) = Inr version"
    and summ: "header_summary K M blob = Inr summary"
    and map: "rsvmap_loop fuel M (blob + ucast off_rsv) 0 (''/dts-v1/;'' @ nl @ summary) = Inr out1"
    and reach: "rounds k K render M blob (blob + ucast off_str) version debug
                  \<lparr>p = blob + ucast off_dt, depth = 0, out = out1, err = []\<rparr> = Some st"
    and tag: "be32 M (p st) = Inr tag"
    and unknown: "tag \<noteq> FDT_END K" "tag \<noteq> FDT_BEGIN_NODE K" "tag \<noteq> FDT_END_NODE K"
                 "tag \<noteq> FDT_NOP K" "tag \<noteq> FDT_PROP K"
    and fuel: "k < fuel"
  shows "walk (Suc n) K render M blob (blob + ucast off_str) version debug st =
           Inr (st\<lparr>p := p st + 4,
                    out := out st
                      @ dumpf debug (fmt_0x 4 (unat (p st - blob)) @ '': tag: 0x''
                          @ fmt_0x 8 (unat tag) @ '' (FDT_???)'' @ nl),
                    err := pad (depth st * shift) @ '' ** Unknown tag 0x''
                             @ fmt_0x 8 (unat tag) @ nl\<rparr>)
       \<and> main fuel K render fname (IsFile (Some M)) debug scan =
           Inr ((if scan then skips @ fname @ '': found fdt at offset ''
                               @ fmt_alt_x (unat (blob - base M)) @ nl else [])
                  @ out st
                  @ dumpf debug (fmt_0x 4 (unat (p st - blob)) @ '': tag: 0x''
                      @ fmt_0x 8 (unat tag) @ '' (FDT_???)'' @ nl),
                pad (depth st * shift) @ '' ** Unknown tag 0x'' @ fmt_0x 8 (unat tag) @ nl,
                0)"
proof -
  have quiet: "err st = []"
    using rounds_err [OF reach] by simp
  have stop: "walk (Suc m) K render M blob (blob + ucast off_str) version debug st =
           Inr (st\<lparr>p := p st + 4,
                    out := out st
                      @ dumpf debug (fmt_0x 4 (unat (p st - blob)) @ '': tag: 0x''
                          @ fmt_0x 8 (unat tag) @ '' (FDT_???)'' @ nl),
                    err := pad (depth st * shift) @ '' ** Unknown tag 0x''
                             @ fmt_0x 8 (unat tag) @ nl\<rparr>)" for m
    unfolding walk_unknown_tag [OF tag unknown] quiet by simp
  define m where "m = fuel - Suc k"
  have m: "fuel = k + Suc m"
    using fuel by (simp add: m_def)
  have run: "main fuel K render fname (IsFile (Some M)) debug scan =
           bind_res (walk (Suc m) K render M blob (blob + ucast off_str) version debug st) (\<lambda>st'.
             Inr ((if scan then skips @ fname @ '': found fdt at offset ''
                                 @ fmt_alt_x (unat (blob - base M)) @ nl else [])
                    @ out st', err st', 0))"
    by (rule main_after_rounds [OF found whole rsv dt str ver summ map reach m])
  show ?thesis
    unfolding run stop by simp
qed

theorem unknown_tag_stops_witness:
  "main 10 fdt_h hex_render ''f'' (IsFile (Some ex_unknown)) True False =
     Inr (''/dts-v1/;'' @ nl
          @ ''// magic:'' @ tab @ tab @ ''0xd00dfeed'' @ nl
          @ ''// totalsize:'' @ tab @ tab @ ''0x4c (76)'' @ nl
          @ ''// off_dt_struct:'' @ tab @ ''0x38'' @ nl
          @ ''// off_dt_strings:'' @ tab @ ''0x4c'' @ nl
          @ ''// off_mem_rsvmap:'' @ tab @ ''0x28'' @ nl
          @ ''// version:'' @ tab @ tab @ ''17'' @ nl
          @ ''// last_comp_version:'' @ tab @ ''16'' @ nl
          @ ''// boot_cpuid_phys:'' @ tab @ ''0x0'' @ nl
          @ ''// size_dt_strings:'' @ tab @ ''0x0'' @ nl
          @ ''// size_dt_struct:'' @ tab @ ''0x14'' @ nl @ nl
          @ ''// 0038: tag: 0x00000001 (FDT_BEGIN_NODE)'' @ nl
          @ ''/ {'' @ nl
          @ ''// 0040: tag: 0x00000005 (FDT_???)'' @ nl,
          ''     ** Unknown tag 0x00000005'' @ nl, 0)"
proof -
  let ?summary = "''// magic:'' @ tab @ tab @ ''0xd00dfeed'' @ nl
          @ ''// totalsize:'' @ tab @ tab @ ''0x4c (76)'' @ nl
          @ ''// off_dt_struct:'' @ tab @ ''0x38'' @ nl
          @ ''// off_dt_strings:'' @ tab @ ''0x4c'' @ nl
          @ ''// off_mem_rsvmap:'' @ tab @ ''0x28'' @ nl
          @ ''// version:'' @ tab @ tab @ ''17'' @ nl
          @ ''// last_comp_version:'' @ tab @ ''16'' @ nl
          @ ''// boot_cpuid_phys:'' @ tab @ ''0x0'' @ nl
          @ ''// size_dt_strings:'' @ tab @ ''0x0'' @ nl
          @ ''// size_dt_struct:'' @ tab @ ''0x14'' @ nl @ nl"
  let ?st = "\<lparr>p = 0x1040 :: addr, depth = 1,
              out = ''/dts-v1/;'' @ nl @ ?summary
                    @ ''// 0038: tag: 0x00000001 (FDT_BEGIN_NODE)'' @ nl @ ''/ {'' @ nl,
              err = []\<rparr>"
  have found: "False \<Longrightarrow> scan_loop 10 fdt_h ex_unknown ''f'' True (base ex_unknown)
                 (base ex_unknown + of_nat (length (bytes ex_unknown))) (base ex_unknown) []
               = Inr (Some 0x1000, [])"
    by simp
  have whole: "\<not> False \<Longrightarrow> (0x1000 :: addr) = base ex_unknown"
    by (simp add: ex_unknown_def)
  have rsv: "hdr ex_unknown 0x1000 (o_off_mem_rsvmap fdt_h) = Inr 0x28"
    and dt: "hdr ex_unknown 0x1000 (o_off_dt_struct fdt_h) = Inr 0x38"
    and str: "hdr ex_unknown 0x1000 (o_off_dt_strings fdt_h) = Inr 0x4c"
    and ver: "hdr ex_unknown 0x1000 (o_version fdt_h) = Inr 17"
    by (simp_all add: run_simps ex_unknown_def)
  have summ: "header_summary fdt_h ex_unknown 0x1000 = Inr ?summary"
    by (simp add: run_simps ex_unknown_def cong: bind_res_weak_cong)
  have map: "rsvmap_loop 10 ex_unknown (0x1000 + ucast (0x28 :: u32)) 0
               (''/dts-v1/;'' @ nl @ ?summary) = Inr (''/dts-v1/;'' @ nl @ ?summary)"
    by (simp add: run_simps ex_unknown_def cong: bind_res_weak_cong)
  have reach: "rounds (Suc 0) fdt_h hex_render ex_unknown 0x1000 (0x1000 + ucast (0x4c :: u32)) 17
                 True \<lparr>p = 0x1000 + ucast (0x38 :: u32), depth = 0,
                       out = ''/dts-v1/;'' @ nl @ ?summary, err = []\<rparr> = Some ?st"
    by (simp add: run_simps ex_unknown_def cong: bind_res_weak_cong)
  have tag: "be32 ex_unknown (p ?st) = Inr 5"
    by (simp add: run_simps ex_unknown_def)
  have unknown: "5 \<noteq> FDT_END fdt_h" "5 \<noteq> FDT_BEGIN_NODE fdt_h" "5 \<noteq> FDT_END_NODE fdt_h"
      "5 \<noteq> FDT_NOP fdt_h" "5 \<noteq> FDT_PROP fdt_h"
    by (simp_all add: fdt_h_def)
  have fuel: "Suc 0 < 10"
    by simp
  from unknown_tag_stops [OF found whole rsv dt str ver summ map reach tag unknown fuel,
      where n = 0]
  show ?thesis
    by (simp add: dumpf_def pad_def shift_def nl_def fmt_0x_def hex.simps hexdigit_def
          replicate_numeral_unfold)
qed


text \<open>
  The claim as the specification states it fails: on \<open>ex_unknown\<close> the run stops at
  the tag 5, the line on standard error has the tag and no offset, and the exit status
  is 0.
\<close>

theorem unknown_tag_exit_status_0:
  "main 10 fdt_h hex_render ''f'' (IsFile (Some ex_unknown)) False False =
     Inr (''/dts-v1/;'' @ nl
          @ ''// magic:'' @ tab @ tab @ ''0xd00dfeed'' @ nl
          @ ''// totalsize:'' @ tab @ tab @ ''0x4c (76)'' @ nl
          @ ''// off_dt_struct:'' @ tab @ ''0x38'' @ nl
          @ ''// off_dt_strings:'' @ tab @ ''0x4c'' @ nl
          @ ''// off_mem_rsvmap:'' @ tab @ ''0x28'' @ nl
          @ ''// version:'' @ tab @ tab @ ''17'' @ nl
          @ ''// last_comp_version:'' @ tab @ ''16'' @ nl
          @ ''// boot_cpuid_phys:'' @ tab @ ''0x0'' @ nl
          @ ''// size_dt_strings:'' @ tab @ ''0x0'' @ nl
          @ ''// size_dt_struct:'' @ tab @ ''0x14'' @ nl @ nl
          @ ''/ {'' @ nl,
          ''     ** Unknown tag 0x00000005'' @ nl, 0)"
  by (simp add: run_simps hex_render_def ex_unknown_def cong: bind_res_weak_cong)

section \<open>The scan for an embedded blob\<close>

text \<open>
  The scan on a buffer in which every read of the scan lies inside the buffer. The
  magic is the first field of the header. In a buffer of fewer than \<open>2^63\<close>
  bytes, let the candidate at offset \<open>j\<close>, more than 4 bytes before the end, be
  accepted in the words of the specification (its four bytes are the magic; version at
  most 17, last compatible version below 17, total size, structure offset and strings
  offset smaller than the number of bytes from \<open>j\<close> to the end), and let every
  earlier offset whose byte is the first byte of the magic be rejected with its reads
  inside the buffer (its four bytes are not the magic, or its header fails a check).
  Then the scan, given fuel for \<open>j\<close> rounds and one more, ends at \<open>j\<close>; no earlier
  candidate is accepted; the rejected candidates that had the magic are reported in
  diagnostic mode, one line each; and \<open>main\<close> prints the line about the offset found
  and goes on to decode the blob at \<open>j\<close>. When a buffer of at least 4 bytes has no
  acceptable candidate (every offset more than 4 bytes before the end whose byte is the
  first byte of the magic is rejected), \<open>main\<close> ends in \<^verbatim>\<open>die\<close> with the message
  that no magic was located.
\<close>

lemma scan_accepts_first_plausible:
  assumes z: "o_magic K = 0"
    and L: "length (bytes M) < 2 ^ 63"
    and j: "j + 4 < length (bytes M)"
    and acc: "accepted K M j"
    and earlier: "\<forall>k < j. bytes M ! k = smagic0 K \<longrightarrow> rejected K M k"
    and fuel: "j < fuel"
    and L': "4 \<le> length (bytes M')" "length (bytes M') < 2 ^ 63"
    and none: "\<forall>k. k + 4 < length (bytes M') \<and> bytes M' ! k = smagic0 K \<longrightarrow> rejected K M' k"
    and fuel': "length (bytes M') - 4 < fuel'"
  shows "scan_loop fuel K M fname debug (base M) (base M + of_nat (length (bytes M))) (base M) []
           = Inr (Some (base M + of_nat j), skipped K M fname debug 0 j)
       \<and> (\<forall>k < j. \<not> accepted K M k)
       \<and> main fuel K render fname (IsFile (Some M)) debug True =
           bind_res (dump_blob fuel K render M (base M + of_nat j) debug) (\<lambda>(out1, err1).
             Inr (skipped K M fname debug 0 j @ fname @ '': found fdt at offset ''
                    @ fmt_alt_x j @ nl @ out1, err1, 0))
       \<and> main fuel' K render fname (IsFile (Some M')) debug True =
           Inl (Die (skipped K M' fname debug 0 (length (bytes M') - 4))
                    (fname @ '': could not locate fdt magic'' @ nl))"
proof -
  have j64: "j < 2 ^ 64"
    using j L by simp
  have c: "bytes M ! j = smagic0 K"
    using acc magic_first_byte(1) [OF _ z j64] by (simp add: accepted_def)
  have e: "\<forall>k. 0 \<le> k \<and> k < j \<and> bytes M ! k = smagic0 K \<longrightarrow> rejected K M k"
    using earlier by simp
  have found: "scan_loop fuel K M fname debug (base M) (base M + of_nat (length (bytes M)))
                 (base M) [] = Inr (Some (base M + of_nat j), skipped K M fname debug 0 j)"
    using scan_finds [OF L j c acc _ _ e, of fuel fname debug "[]"] fuel by simp
  have least: "\<forall>k < j. \<not> accepted K M k"
  proof (intro allI impI notI)
    fix k assume k: "k < j" and a: "accepted K M k"
    then have "bytes M ! k = smagic0 K"
      using magic_first_byte(1) [OF _ z, of M k] j64 by (simp add: accepted_def)
    with k earlier have "rejected K M k"
      by simp
    with a show False
      using accepted_not_rejected by blast
  qed
  have u: "unat (base M + of_nat j - base M) = j"
    using j64 unat_of_nat64 [of j] by simp
  have run: "main fuel K render fname (IsFile (Some M)) debug True =
           bind_res (dump_blob fuel K render M (base M + of_nat j) debug) (\<lambda>(out1, err1).
             Inr (skipped K M fname debug 0 j @ fname @ '': found fdt at offset ''
                    @ fmt_alt_x j @ nl @ out1, err1, 0))"
    unfolding main_def using found u by (simp add: case_prod_unfold)
  have n: "\<forall>k. 0 \<le> k \<and> k + 4 < length (bytes M') \<and> bytes M' ! k = smagic0 K
             \<longrightarrow> rejected K M' k"
    using none by simp
  have "scan_loop fuel' K M' fname debug (base M') (base M' + of_nat (length (bytes M')))
          (base M') [] = Inr (None, skipped K M' fname debug 0 (length (bytes M') - 4))"
    using scan_fails [OF L'(2) _ _ n, of fuel' fname debug "[]"] L'(1) fuel' by simp
  then have dies: "main fuel' K render fname (IsFile (Some M')) debug True =
           Inl (Die (skipped K M' fname debug 0 (length (bytes M') - 4))
                    (fname @ '': could not locate fdt magic'' @ nl))"
    unfolding main_def by simp
  from found least run dies show ?thesis
    by blast
qed

text \<open>The scan on \<open>ex_scan\<close>, which passes over the magic at offset 0 and finds
  the blob at offset 28, and on \<open>ex_nomagic\<close>, where it finds none.\<close>

lemma scan_accepts_first_plausible_example:
  "main 40 fdt_h hex_render ''f'' (IsFile (Some ex_scan)) True True =
     Inr (''f: skipping fdt magic at offset 0'' @ nl
          @ ''f: found fdt at offset 0x1c'' @ nl
          @ ''/dts-v1/;'' @ nl
          @ ''// magic:'' @ tab @ tab @ ''0xd00dfeed'' @ nl
          @ ''// totalsize:'' @ tab @ tab @ ''0x5f (95)'' @ nl
          @ ''// off_dt_struct:'' @ tab @ ''0x38'' @ nl
          @ ''// off_dt_strings:'' @ tab @ ''0x5c'' @ nl
          @ ''// off_mem_rsvmap:'' @ tab @ ''0x28'' @ nl
          @ ''// version:'' @ tab @ tab @ ''2'' @ nl
          @ ''// last_comp_version:'' @ tab @ ''2'' @ nl
          @ ''// boot_cpuid_phys:'' @ tab @ ''0x0'' @ nl @ nl
          @ ''// 0038: tag: 0x00000001 (FDT_BEGIN_NODE)'' @ nl
          @ ''/ {'' @ nl
          @ ''// 0040: tag: 0x00000003 (FDT_PROP)'' @ nl
          @ ''// 005c: string: ab'' @ nl
          @ ''// 004c: value'' @ nl
          @ ''    ab = [0102030405060708];'' @ nl
          @ ''// 0054: tag: 0x00000002 (FDT_END_NODE)'' @ nl
          @ ''};'' @ nl, [], 0)
   \<and> main 10 fdt_h hex_render ''f'' (IsFile (Some ex_nomagic)) True True =
       Inl (Die [] (''f: could not locate fdt magic'' @ nl))"
proof -
  have z: "o_magic fdt_h = 0"
    by (simp add: fdt_h_def)
  have L: "length (bytes ex_scan) < 2 ^ 63" and j: "28 + 4 < length (bytes ex_scan)"
    by (simp_all add: ex_scan_def)
  have acc: "accepted fdt_h ex_scan 28"
    by (simp add: accepted_def magic_at_def header_ok_def run_simps ex_scan_def)
  have first: "smagic0 fdt_h = 0xd0"
    by (simp add: smagic0_def fdt_h_def)
  have "\<forall>k \<in> set [0..<28]. bytes ex_scan ! k = 0xd0 \<longrightarrow> k = 0"
    by (simp add: upt_rec ex_scan_def)
  then have only: "\<forall>k < 28. bytes ex_scan ! k = smagic0 fdt_h \<longrightarrow> k = 0"
    unfolding first by simp
  have rej: "rejected fdt_h ex_scan 0"
    by (simp add: rejected_def not_magic_at_def magic_at_def header_ok_def run_simps
          ex_scan_def)
  from only rej have earlier: "\<forall>k < 28. bytes ex_scan ! k = smagic0 fdt_h
                               \<longrightarrow> rejected fdt_h ex_scan k"
    by metis
  have fuel: "(28 :: nat) < 40"
    by simp
  have L': "4 \<le> length (bytes ex_nomagic)" "length (bytes ex_nomagic) < 2 ^ 63"
    by (simp_all add: ex_nomagic_def)
  have "\<forall>k \<in> set [0..<4]. bytes ex_nomagic ! k = 0xd0 \<longrightarrow> k = 0"
    by (simp add: upt_rec ex_nomagic_def)
  then have only': "\<forall>k < 4. bytes ex_nomagic ! k = smagic0 fdt_h \<longrightarrow> k = 0"
    unfolding first by simp
  have rej': "rejected fdt_h ex_nomagic 0"
    by (simp add: rejected_def not_magic_at_def magic_at_def run_simps ex_nomagic_def)
  have len': "length (bytes ex_nomagic) = 8"
    by (simp add: ex_nomagic_def)
  from only' rej' have none: "\<forall>k. k + 4 < length (bytes ex_nomagic)
      \<and> bytes ex_nomagic ! k = smagic0 fdt_h \<longrightarrow> rejected fdt_h ex_nomagic k"
    unfolding len' by (metis add_less_cancel_right numeral_Bit0)
  have fuel': "length (bytes ex_nomagic) - 4 < 10"
    by (simp add: ex_nomagic_def)
  have blob: "dump_blob 40 fdt_h hex_render ex_scan (base ex_scan + 28) True =
     Inr (''/dts-v1/;'' @ nl
          @ ''// magic:'' @ tab @ tab @ ''0xd00dfeed'' @ nl
          @ ''// totalsize:'' @ tab @ tab @ ''0x5f (95)'' @ nl
          @ ''// off_dt_struct:'' @ tab @ ''0x38'' @ nl
          @ ''// off_dt_strings:'' @ tab @ ''0x5c'' @ nl
          @ ''// off_mem_rsvmap:'' @ tab @ ''0x28'' @ nl
          @ ''// version:'' @ tab @ tab @ ''2'' @ nl
          @ ''// last_comp_version:'' @ tab @ ''2'' @ nl
          @ ''// boot_cpuid_phys:'' @ tab @ ''0x0'' @ nl @ nl
          @ ''// 0038: tag: 0x00000001 (FDT_BEGIN_NODE)'' @ nl
          @ ''/ {'' @ nl
          @ ''// 0040: tag: 0x00000003 (FDT_PROP)'' @ nl
          @ ''// 005c: string: ab'' @ nl
          @ ''// 004c: value'' @ nl
          @ ''    ab = [0102030405060708];'' @ nl
          @ ''// 0054: tag: 0x00000002 (FDT_END_NODE)'' @ nl
          @ ''};'' @ nl, [])"
    by (simp add: run_simps hex_render_def ex_scan_def cong: bind_res_weak_cong)
  have skip: "skipped fdt_h ex_scan ''f'' True 0 28 = ''f: skipping fdt magic at offset 0'' @ nl"
    using only
    by (simp add: skipped_def skip_line_def magic_at_def run_simps ex_scan_def upt_rec
          cong: bind_res_weak_cong)
  have skip': "skipped fdt_h ex_nomagic ''f'' True 0 (length (bytes ex_nomagic) - 4) = []"
    by (simp add: skipped_def skip_line_def magic_at_def run_simps ex_nomagic_def upt_rec)
  have found: "fmt_alt_x 28 = ''0x1c''"
    by (simp add: fmt_alt_x_def hex.simps hexdigit_def)
  from scan_accepts_first_plausible [OF z L j acc earlier fuel L' none fuel',
      where render = hex_render and fname = "''f''" and debug = True]
  show ?thesis
    by (simp add: blob skip skip' found)
qed

text \<open>
  C5 fails on a buffer in which the magic is followed by fewer bytes than the header
  fields that the checks read. For the 5 bytes of \<open>ex_five\<close> the probe is given
  \<open>endp - p - 4 = 1\<close> byte and finds the first byte of the magic at offset 0; the four
  bytes there are the magic; the first check then reads the version at offset 20 of a
  buffer of 5 bytes, past its end. The candidate is not acceptable in the words of the
  specification (its header is not in the buffer), and there is no other one, but the
  run does not end in the error that no magic was located: it has no defined result.
\<close>

theorem scan_header_past_end:
  "unat (base ex_five + of_nat (length (bytes ex_five)) - base ex_five - 4) = 1
   \<and> memchr ex_five (base ex_five) (smagic0 fdt_h) 1 = Inr (Some (base ex_five))
   \<and> hdr ex_five (base ex_five) (o_magic fdt_h) = Inr (FDT_MAGIC fdt_h)
   \<and> hdr ex_five (base ex_five) (o_version fdt_h) = Inl OutOfBounds
   \<and> plausible fdt_h ex_five (base ex_five + of_nat (length (bytes ex_five))) (base ex_five)
       = Inl OutOfBounds
   \<and> \<not> accepted fdt_h ex_five 0
   \<and> main 10 fdt_h hex_render ''f'' (IsFile (Some ex_five)) False True = Inl OutOfBounds"
  by (simp add: run_simps ex_five_def accepted_def header_ok_def cong: bind_res_weak_cong)

text \<open>
  C10 on buffers of at least 4 bytes: when the first byte of the magic occurs only in
  the last 4 bytes, no candidate is examined and the scan ends in \<^verbatim>\<open>die\<close>.
\<close>

lemma scan_ignores_last_four:
  assumes L: "4 \<le> length (bytes M)" "length (bytes M) < 2 ^ 63"
    and only_last: "\<forall>k. k + 4 < length (bytes M) \<longrightarrow> bytes M ! k \<noteq> smagic0 K"
  shows "main (Suc fuel) K render fname (IsFile (Some M)) debug True =
           Inl (Die [] (fname @ '': could not locate fdt magic'' @ nl))"
proof -
  have "scan_loop (Suc fuel) K M fname debug (base M) (base M + of_nat (length (bytes M)))
          (base M + of_nat i) so = Inr (None, so)"
    if "i + 4 \<le> length (bytes M)" for i so
    using that
  proof (induction "length (bytes M) - 4 - i" arbitrary: i)
    case 0
    then show ?case
      using scan_step_end [OF _ L(2), of i] by simp
  next
    case (Suc n)
    then have i: "i + 4 < length (bytes M)"
      by simp
    with only_last have "bytes M ! i \<noteq> smagic0 K"
      by simp
    then have "scan_loop (Suc fuel) K M fname debug (base M)
                 (base M + of_nat (length (bytes M))) (base M + of_nat i) so =
               scan_loop (Suc fuel) K M fname debug (base M)
                 (base M + of_nat (length (bytes M))) (base M + of_nat (Suc i)) so"
      using scan_step_skip [OF i L(2)] by simp
    moreover have "scan_loop (Suc fuel) K M fname debug (base M)
                 (base M + of_nat (length (bytes M))) (base M + of_nat (Suc i)) so
               = Inr (None, so)"
      using Suc.hyps(1) [of "Suc i"] Suc.hyps(2) i by simp
    ultimately show ?case
      by (simp del: scan_loop.simps)
  qed
  from this [of 0 "[]"] L(1) show ?thesis
    unfolding main_def by simp
qed

text \<open>
  C10 fails on a buffer of fewer than 4 bytes. For the 3 bytes of \<open>ex_short\<close> the
  length handed to \<^verbatim>\<open>memchr\<close> is \<open>endp - p - 4 = -1\<close>, as a \<^verbatim>\<open>size_t\<close> the largest
  value; \<^verbatim>\<open>memchr\<close> finds the first byte of the magic at offset 0, inside the last 4
  bytes of the buffer; the comparison of the magic then reads 4 bytes at offset 0 of a
  buffer of 3, past its end, and the run has no defined result.
\<close>

theorem scan_short_buffer_reads_past_end:
  "unat (base ex_short + of_nat (length (bytes ex_short)) - base ex_short - 4)
     = 18446744073709551615
   \<and> memchr ex_short (base ex_short) (smagic0 fdt_h) 18446744073709551615
       = Inr (Some (base ex_short))
   \<and> hdr ex_short (base ex_short) (o_magic fdt_h) = Inl OutOfBounds
   \<and> main 10 fdt_h hex_render ''f'' (IsFile (Some ex_short)) False True = Inl OutOfBounds"
proof -
  have u: "unat (- 1 :: addr) = 18446744073709551615"
    by code_simp
  show ?thesis
    by (simp add: run_simps ex_short_def u cong: bind_res_weak_cong)
qed

section \<open>The reservation map\<close>

text \<open>
  C4. When the pairs of the reservation map at the offset the header declares are the
  pairs \<open>es\<close>, none of them zero/zero, followed by a pair whose address and size are
  both zero, the reader prints one \<^verbatim>\<open>/memreserve/\<close> line per pair of \<open>es\<close>, in
  order, with the address and the size in hexadecimal, and stops at the zero pair
  without a line for it (given fuel for one round per pair and one for the sentinel):
  the loop returns its output extended by exactly these lines, and in the output of
  \<open>dump_blob\<close> they follow the header summary.
\<close>

theorem rsvmap_stops_at_sentinel:
  assumes entries: "\<forall>j < length es. rsv_entry M q j = Inr (es ! j)"
    and nonzero: "(0, 0) \<notin> set es"
    and sentinel: "rsv_entry M q (length es) = Inr (0, 0)"
    and fuel: "length es < fuel"
    and run: "dump_blob fuel K render M blob debug = Inr (so, se)"
    and off: "hdr M blob (o_off_mem_rsvmap K) = Inr off_mem_rsvmap"
    and q: "q = blob + ucast off_mem_rsvmap"
  shows "rsvmap_loop fuel M q 0 so0 =
           Inr (so0 @ concat (map (\<lambda>(a, s). ''/memreserve/ '' @ fmt_alt_x (unat a) @ '' ''
                                       @ fmt_alt_x (unat s) @ '';'' @ nl) es))
       \<and> (\<exists>summary. header_summary K M blob = Inr summary
             \<and> prefix (''/dts-v1/;'' @ nl @ summary
                        @ concat (map (\<lambda>(a, s). ''/memreserve/ '' @ fmt_alt_x (unat a) @ '' ''
                                       @ fmt_alt_x (unat s) @ '';'' @ nl) es)) so)"
proof -
  have loop: "rsvmap_loop fuel M q 0 x =
           Inr (x @ concat (map (\<lambda>(a, s). ''/memreserve/ '' @ fmt_alt_x (unat a) @ '' ''
                                       @ fmt_alt_x (unat s) @ '';'' @ nl) es))" for x
    using rsvmap_loop_from [of es M q 0 fuel x] entries nonzero sentinel fuel
    by (simp add: memreserve_line_def)
  from run obtain off' off_dt off_str :: u32 and version summary out1 st where
    o': "hdr M blob (o_off_mem_rsvmap K) = Inr off'"
    and h: "header_summary K M blob = Inr summary"
    and r: "rsvmap_loop fuel M (blob + ucast off') 0 (''/dts-v1/;'' @ nl @ summary) = Inr out1"
    and w: "walk fuel K render M blob (blob + ucast off_str) version debug
              \<lparr>p = blob + ucast off_dt, depth = 0, out = out1, err = []\<rparr> = Inr st"
    and res: "Inr (out st, err st) = (Inr (so, se) :: error + string \<times> string)"
    unfolding dump_blob_def bind_res_eq_Inr by blast
  from o' off q have "blob + ucast off' = q"
    by simp
  with r loop have "out1 = (''/dts-v1/;'' @ nl @ summary)
      @ concat (map (\<lambda>(a, s). ''/memreserve/ '' @ fmt_alt_x (unat a) @ '' ''
                                       @ fmt_alt_x (unat s) @ '';'' @ nl) es)"
    by simp
  moreover from w have "prefix out1 (out st)"
    using walk_prefix by fastforce
  moreover from res have "so = out st"
    by simp
  ultimately show ?thesis
    using h loop by auto
qed

theorem rsvmap_stops_at_sentinel_witness:
  "rsvmap_loop 10 ex_acme 0x1028 0 [] = Inr (''/memreserve/ 0x1000 0x200;'' @ nl)"
proof -
  have entries: "\<forall>j < length [(0x1000, 0x200) :: u64 \<times> u64].
                   rsv_entry ex_acme 0x1028 j = Inr ([(0x1000, 0x200)] ! j)"
    by (simp add: rsv_entry_def run_simps ex_acme_def)
  have nonzero: "(0, 0) \<notin> set [(0x1000, 0x200) :: u64 \<times> u64]"
    by simp
  have sentinel: "rsv_entry ex_acme 0x1028 (length [(0x1000, 0x200) :: u64 \<times> u64]) = Inr (0, 0)"
    by (simp add: rsv_entry_def run_simps ex_acme_def)
  have fuel: "length [(0x1000, 0x200) :: u64 \<times> u64] < 10"
    by simp
  have run: "dump_blob 10 fdt_h hex_render ex_acme 0x1000 False = Inr (acme_dts, [])"
    by (simp add: run_simps hex_render_def ex_acme_def acme_dts_def cong: bind_res_weak_cong)
  have off: "hdr ex_acme 0x1000 (o_off_mem_rsvmap fdt_h) = Inr 0x28"
    by (simp add: run_simps ex_acme_def)
  have q: "(0x1028 :: addr) = 0x1000 + ucast (0x28 :: u32)"
    by simp
  from rsvmap_stops_at_sentinel [OF entries nonzero sentinel fuel run off q, where ?so0.0 = "[]"]
  show ?thesis
    by (simp add: fmt_alt_x_def hex.simps hexdigit_def)
qed

section \<open>The live tree\<close>

text \<open>
  A regular file that \<^verbatim>\<open>stat\<close> and \<^verbatim>\<open>open\<close> accept and that delivers the bytes
  \<open>bs\<close>, of which there are at least as many as the size \<open>sz\<close> that \<^verbatim>\<open>stat\<close>
  reported, capped at 4096: the loop reads the first \<open>min sz 4096\<close> bytes of the file,
  at most 4096, the walker hands them to the renderer, and the line carries the marker
  \<^verbatim>\<open> (trunc)\<close> exactly when \<open>sz\<close> exceeds 4096.
\<close>

lemma regular_file_chunk:
  assumes size: "st_size f = Some sz"
    and opens: "can_open f"
    and reads: "data f = Some bs"
    and enough: "min sz 4096 \<le> length bs"
  shows "read_loop (Suc fuel) new_path so1 (data f) 0 (min sz 4096) [] = Inr (take (min sz 4096) bs)
       \<and> length (take (min sz 4096) bs) \<le> 4096
       \<and> dump_file (Suc fuel) render path dep name f so =
           Inr (so @ pad (dep * shift) @ name @ (if 4096 < sz then '' (trunc)'' else [])
                  @ render (int (min sz 4096)) (take (min sz 4096) bs) @ '';'' @ nl)"
  using assms
  by (auto simp: dump_file_def Let_def buf_alloc_def read_loop_done min_def)

lemma regular_file_chunk_example:
  "dump_file 2 hex_render ''root'' 1 ''status''
     (RFile (Some 5) True (Some [0x6f, 0x6b, 0x61, 0x79, 0])) []
   = Inr (''    status = [6f6b617900];'' @ nl)"
proof -
  let ?f = "RFile (Some 5) True (Some [0x6f, 0x6b, 0x61, 0x79, 0])"
  have size: "st_size ?f = Some 5" and opens: "can_open ?f"
    and reads: "data ?f = Some [0x6f, 0x6b, 0x61, 0x79, 0]"
    by simp_all
  have enough: "min 5 4096 \<le> length [0x6f, 0x6b, 0x61, 0x79, 0 :: byte]"
    by simp
  have two: "(2 :: nat) = Suc 1"
    by simp
  show ?thesis
    unfolding two
    using regular_file_chunk [OF size opens reads enough, where fuel = 1 and render = hex_render
        and path = "''root''" and dep = 1 and name = "''status''" and so = "[]"]
    by (simp add: pad_def shift_def hex_render_def fmt_0x_def hex.simps hexdigit_def
          replicate_numeral_unfold)
qed

text \<open>
  C9 fails for a regular file that delivers fewer bytes than the size that \<^verbatim>\<open>stat\<close>
  reported. For the file \<open>dev\<close> of \<open>ex_short_read\<close> the loop asks for 4096 bytes;
  the first \<^verbatim>\<open>read\<close> delivers 4 bytes and every later one returns 0, which the loop
  takes for progress: it never ends, with any amount of fuel. Nothing is handed to the
  renderer and the line of the property is never completed, in \<open>dump_file\<close> and in
  the run of \<open>main\<close> on the directory.
\<close>

theorem short_read_never_returns:
  "\<forall>fuel. dump_file fuel hex_render ''root'' 1 ''dev''
             (RFile (Some 4096) True (Some [0x38, 0x3a, 0x30, 0x0a])) [] = Inl OutOfFuel
          \<and> main fuel fdt_h hex_render ''root'' (IsDir ex_short_read) False False
              = Inl OutOfFuel"
proof (intro allI conjI)
  fix fuel
  have starves: "dump_file fuel hex_render ''root'' 1 ''dev''
          (RFile (Some 4096) True (Some [0x38, 0x3a, 0x30, 0x0a])) so = Inl OutOfFuel" for so
    by (rule dump_file_starves [where sz = 4096 and bs = "[0x38, 0x3a, 0x30, 0x0a]"]) simp_all
  from starves show "dump_file fuel hex_render ''root'' 1 ''dev''
          (RFile (Some 4096) True (Some [0x38, 0x3a, 0x30, 0x0a])) [] = Inl OutOfFuel" .
  from starves
  show "main fuel fdt_h hex_render ''root'' (IsDir ex_short_read) False False = Inl OutOfFuel"
    by (simp add: main_def dump_live_def ex_short_read_def strip_trailing.simps)
qed

section \<open>The whole output\<close>




text \<open>
  C8, as the code has it. The version marker line is the first line of the output for
  a blob decoded without the scan. With the scan, the line
  \<^verbatim>\<open><file>: found fdt at offset <n>\<close> comes right before it (and in diagnostic mode
  the lines about skipped candidates before that). For a live tree no version marker
  line is written at the start: the output begins with the comment
  \<^verbatim>\<open>/* dump of live tree at <path> */\<close> and the line that opens the root node.
\<close>

theorem first_line_of_output:
  assumes blob: "main fuel K render fname (IsFile (Some M)) debug False = Inr (so, se, status)"
    and scan: "main fuel' K' render' fname' (IsFile (Some M')) debug' True = Inr (so', se', status')"
    and live: "main fuel'' K'' render'' fname'' (IsDir root) debug'' scan'' = Inr (so'', se'', status'')"
  shows "prefix (''/dts-v1/;'' @ nl) so
       \<and> (\<exists>skipped q rest.
             so' = skipped @ fname' @ '': found fdt at offset ''
                     @ fmt_alt_x (unat (q - base M')) @ nl @ ''/dts-v1/;'' @ nl @ rest
             \<and> (\<not> debug' \<longrightarrow> skipped = []))
       \<and> prefix (''/* dump of live tree at '' @ strip_trailing fname'' @ '' */'' @ nl
                  @ ''/ {'' @ nl) so''"
proof (intro conjI)
  from blob obtain out1 err1 where d: "dump_blob fuel K render M (base M) debug = Inr (out1, err1)"
    and so: "so = out1"
    by (auto simp: main_def bind_res_eq_Inr)
  from dump_blob_prefix [OF d] so show "prefix (''/dts-v1/;'' @ nl) so"
    using prefix_appendD [of "''/dts-v1/;'' @ nl"] by auto
next
  from scan obtain q out_s out1 err1 where
    s: "scan_loop fuel' K' M' fname' debug' (base M') (base M' + of_nat (length (bytes M')))
          (base M') [] = Inr (Some q, out_s)"
    and d: "dump_blob fuel' K' render' M' q debug' = Inr (out1, err1)"
    and so: "so' = (out_s @ fname' @ '': found fdt at offset ''
                     @ fmt_alt_x (unat (q - base M')) @ nl) @ out1"
    by (auto simp: main_def bind_res_eq_Inr split: option.splits)
  from dump_blob_prefix [OF d] obtain rest where "out1 = ''/dts-v1/;'' @ nl @ rest"
    by (auto simp: prefix_def)
  moreover have "\<not> debug' \<longrightarrow> out_s = []"
    using s scan_loop_quiet by fastforce
  ultimately show "\<exists>skipped q rest.
             so' = skipped @ fname' @ '': found fdt at offset ''
                     @ fmt_alt_x (unat (q - base M')) @ nl @ ''/dts-v1/;'' @ nl @ rest
             \<and> (\<not> debug' \<longrightarrow> skipped = [])"
    using so by auto
next
  from live obtain o1 where
    i: "dump_live_internal fuel'' render'' (strip_trailing fname'') debug'' 1 root
          (''/* dump of live tree at '' @ strip_trailing fname'' @ '' */'' @ nl @ ''/ {'' @ nl)
        = Inr o1"
    and so: "so'' = o1 @ ''};'' @ nl"
    by (auto simp: main_def dump_live_def Let_def bind_res_eq_Inr split: if_splits)
  from dump_live_internal_prefix [OF i] so
  show "prefix (''/* dump of live tree at '' @ strip_trailing fname'' @ '' */'' @ nl
                  @ ''/ {'' @ nl) so''"
    by auto
qed

theorem first_line_of_output_witness:
  "main 10 fdt_h hex_render ''f'' (IsFile (Some ex_acme)) False False = Inr (acme_dts, [], 0)
   \<and> main 10 fdt_h hex_render ''f'' (IsFile (Some ex_embedded)) False True
         = Inr (embedded_dts, [], 0)
   \<and> main 10 fdt_h hex_render ''root/'' (IsDir ex_tree) False False = Inr (tree_dts, [], 0)
   \<and> prefix (''/dts-v1/;'' @ nl) acme_dts
   \<and> (\<exists>q rest. embedded_dts = ''f: found fdt at offset ''
          @ fmt_alt_x (unat (q - base ex_embedded)) @ nl @ ''/dts-v1/;'' @ nl @ rest)
   \<and> prefix (''/* dump of live tree at '' @ strip_trailing ''root/'' @ '' */'' @ nl
               @ ''/ {'' @ nl) tree_dts"
proof -
  have blob: "main 10 fdt_h hex_render ''f'' (IsFile (Some ex_acme)) False False
                = Inr (acme_dts, [], 0)"
    by (simp add: run_simps hex_render_def ex_acme_def acme_dts_def cong: bind_res_weak_cong)
  have scan: "main 10 fdt_h hex_render ''f'' (IsFile (Some ex_embedded)) False True
                = Inr (embedded_dts, [], 0)"
    by (simp add: run_simps hex_render_def ex_embedded_def embedded_dts_def
          cong: bind_res_weak_cong)
  have live: "main 10 fdt_h hex_render ''root/'' (IsDir ex_tree) False False
                = Inr (tree_dts, [], 0)"
    by (simp add: run_simps live_simps hex_render_def ex_tree_def tree_dts_def
          cong: bind_res_weak_cong)
  from first_line_of_output [OF blob scan live] blob scan live show ?thesis
    by auto
qed

text \<open>
  The claim as the specification states it fails for a live tree: the first line of the
  run on \<open>ex_tree\<close> is the comment, and the version marker is nowhere in the output.
\<close>

theorem live_tree_has_no_version_marker:
  "main 10 fdt_h hex_render ''root/'' (IsDir ex_tree) False False =
     Inr (''/* dump of live tree at root */'' @ nl
          @ ''/ {'' @ nl
          @ ''    status = [6f6b617900];'' @ nl
          @ ''    child {'' @ nl
          @ ''    };'' @ nl
          @ ''};'' @ nl, [], 0)"
  by (simp add: run_simps live_simps hex_render_def ex_tree_def cong: bind_res_weak_cong)
end
